theory Spec2Isabelle
  imports Complex_Main
begin

section \<open>Python values\<close>

text \<open>
  Paths and titles are Python \<open>str\<close> values, modelled as \<open>string\<close>. \<open>chr\<close> and \<open>ord\<close>
  are Python's built-ins on the 8-bit range of \<open>char\<close>; \<open>str_nat\<close> is \<open>str(n)\<close> for a
  non-negative \<open>int\<close>.
\<close>

type_synonym path = string

definition chr :: "nat \<Rightarrow> char" where
  "chr n = char_of n"

definition ord :: "char \<Rightarrow> nat" where
  "ord c = of_char c"

fun str_nat :: "nat \<Rightarrow> string" where
  "str_nat n = (if n < 10 then [chr (ord CHR ''0'' + n)]
                else str_nat (n div 10) @ [chr (ord CHR ''0'' + n mod 10)])"

declare str_nat.simps [simp del]

text \<open>
  Exceptions (\<open>utils/exceptions.py\<close>). An exception is its class together with the message
  it was built from: the text of the f-string with \<open>{}\<close> for each hole, and the values
  that fill the holes. \<open>LibraryError\<close> stands for any exception raised by code outside the
  repository (the operating system, the PDF library, the word processor).
\<close>

datatype exc_class =
    AppendixError
  | WordDocumentError
  | PDFError
  | PDFNotFoundError
  | PDFCorruptedError
  | LibraryError

datatype exn = Exn exc_class string "fmt_arg list"
  and fmt_arg = ArgStr string | ArgNone | ArgInt int | ArgFloat rat | ArgExc exn

fun exn_class :: "exn \<Rightarrow> exc_class" where
  "exn_class (Exn c t args) = c"

fun is_AppendixError :: "exn \<Rightarrow> bool" where
  "is_AppendixError e = (exn_class e = AppendixError)"

text \<open>The argument of an f-string hole holding an optional string (\<open>None\<close> prints as such).\<close>

fun arg_opt :: "string option \<Rightarrow> fmt_arg" where
  "arg_opt None = ArgNone"
| "arg_opt (Some t) = ArgStr t"

text \<open>Calls of \<open>self.logger\<close>: level, f-string text and the values of its holes.\<close>

datatype level = DEBUG | INFO | WARNING | ERROR

type_synonym log_entry = "level \<times> string \<times> fmt_arg list"

section \<open>Appendix titles (\<open>gui/controller.py\<close>)\<close>

text \<open>
  \<open>_generate_appendix_title\<close>. Every style other than \<open>numeric\<close> is alphabetical. The
  letters are computed with \<open>chr\<close>; all code points stay below 256, where \<open>char\<close> and
  Python agree, for every index below \<open>26 * 192\<close>.
\<close>

definition generate_appendix_title :: "string \<Rightarrow> nat \<Rightarrow> string" where
  "generate_appendix_title numbering_style index =
     (if numbering_style = ''numeric'' then ''Appendix '' @ str_nat (index + 1)
      else if index < 26 then ''Appendix '' @ [chr (ord CHR ''A'' + index)]
      else ''Appendix '' @ [chr (ord CHR ''A'' + index div 26 - 1),
                            chr (ord CHR ''A'' + index mod 26)])"

text \<open>
  The titles \<open>_process_pdf_files\<close> gives to a batch of files: each file, valid or not,
  is appended to \<open>processed_files\<close> with the title of index
  \<open>len(self.appendix_data) + len(processed_files)\<close>. Only the titles are kept here.
\<close>

fun process_pdf_files_titles :: "string \<Rightarrow> nat \<Rightarrow> path list \<Rightarrow> string list \<Rightarrow> string list" where
  "process_pdf_files_titles numbering_style n_existing [] processed = processed"
| "process_pdf_files_titles numbering_style n_existing (file_path # rest) processed =
     process_pdf_files_titles numbering_style n_existing rest
       (processed @ [generate_appendix_title numbering_style (n_existing + length processed)])"

section \<open>Settings (\<open>config/settings.py\<close>)\<close>

text \<open>The settings the core reads: \<open>heading_style\<close>, \<open>max_pdf_size_mb\<close> and
  \<open>advanced.temp_directory\<close>.\<close>

record heading_style =
  hs_font_name :: string
  hs_font_size :: int
  hs_bold :: bool
  hs_italic :: bool

record settings =
  st_heading_style :: heading_style
  st_max_pdf_size_mb :: int
  st_temp_directory :: "path option"

section \<open>The file system\<close>

text \<open>
  What the program observes of the operating system: which paths exist, at which
  paths a modifying call (unlink, remove, rmtree, copy to, open for writing) is refused
  with an \<open>OSError\<close>, and at which paths the test \<open>Path.exists()\<close> itself raises
  an \<open>OSError\<close> (\<open>pathlib\<close> passes on every error other than "no such file": a name
  that is too long, a directory that may not be searched). For an existing path,
  \<open>size_bytes\<close> is \<open>stat().st_size\<close> and \<open>pdf_meta\<close> is what the PDF library reads
  from it (\<open>None\<close>: the library raises).
\<close>

record pdf_meta =
  pm_page_count :: int
  pm_encrypted :: bool

record filesystem =
  present :: "path list"
  denied :: "path list"
  stat_denied :: "path list"
  size_bytes :: "path \<Rightarrow> nat"
  pdf_meta :: "path \<Rightarrow> pdf_meta option"

definition path_exists :: "path \<Rightarrow> filesystem \<Rightarrow> bool" where
  "path_exists p fsys = (p \<in> set (present fsys))"

text \<open>
  \<open>pathlib\<close> on POSIX paths without a trailing separator: \<open>d / n\<close>, \<open>.name\<close>,
  \<open>.parent\<close> and \<open>.stem\<close> (the name up to its last dot, unless that dot is the first
  or the last character of the name).
\<close>

definition path_join :: "path \<Rightarrow> string \<Rightarrow> path" where
  "path_join d n = d @ ''/'' @ n"

definition path_name :: "path \<Rightarrow> string" where
  "path_name p = rev (takeWhile (\<lambda>c. c \<noteq> CHR ''/'') (rev p))"

definition path_parent :: "path \<Rightarrow> path" where
  "path_parent p = rev (drop 1 (dropWhile (\<lambda>c. c \<noteq> CHR ''/'') (rev p)))"

definition path_stem :: "path \<Rightarrow> string" where
  "path_stem p =
     (let name = path_name p
      in if CHR ''.'' \<notin> set name then name
         else (let i = length name - length (takeWhile (\<lambda>c. c \<noteq> CHR ''.'') (rev name)) - 1
               in if 0 < i \<and> i < length name - 1 then take i name else name))"

text \<open>\<open>is_under d p\<close>: the path \<open>p\<close> lies below the directory \<open>d\<close>.\<close>

definition is_under :: "path \<Rightarrow> path \<Rightarrow> bool" where
  "is_under d p = (take (length d + 1) p = d @ ''/'')"

definition os_error :: "string \<Rightarrow> path \<Rightarrow> exn" where
  "os_error kind p = Exn LibraryError (kind @ '': {}'') [ArgStr p]"

text \<open>
  \<open>Path(p).exists()\<close> as a call: it raises at a path of \<open>stat_denied\<close> and returns
  \<open>path_exists\<close> elsewhere. The call is written out where a raise takes a way of its
  own through the code: in \<open>validate_appendices\<close>, where it stands outside the
  \<open>try\<close> block, in \<open>validate_pdf_file\<close>, and in the two \<open>cleanup_temp_files\<close>
  methods. In the other functions the call stands in a \<open>try\<close> block whose handler
  wraps whatever is raised; they are modelled where the call returns.
\<close>

definition exists_call :: "path \<Rightarrow> filesystem \<Rightarrow> exn + bool" where
  "exists_call p fsys =
     (if p \<in> set (stat_denied fsys) then Inl (os_error ''OSError'' p)
      else Inr (path_exists p fsys))"

text \<open>\<open>Path.unlink\<close> and \<open>os.remove\<close>.\<close>

definition unlink :: "path \<Rightarrow> filesystem \<Rightarrow> exn + filesystem" where
  "unlink p fsys =
     (if p \<notin> set (present fsys) then Inl (os_error ''FileNotFoundError'' p)
      else if p \<in> set (denied fsys) then Inl (os_error ''PermissionError'' p)
      else Inr (fsys\<lparr>present := removeAll p (present fsys)\<rparr>))"

text \<open>
  \<open>shutil.rmtree(d, ignore_errors=True)\<close>: a path of the tree stays when its own removal
  is refused or when something below it stays; nothing is raised.
\<close>

definition blocked :: "filesystem \<Rightarrow> path \<Rightarrow> bool" where
  "blocked fsys p =
     (\<exists>q \<in> set (present fsys). q \<in> set (denied fsys) \<and> (q = p \<or> is_under p q))"

definition rmtree_ignore_errors :: "path \<Rightarrow> filesystem \<Rightarrow> filesystem" where
  "rmtree_ignore_errors d fsys =
     fsys\<lparr>present := filter (\<lambda>p. \<not> (p = d \<or> is_under d p) \<or> blocked fsys p) (present fsys)\<rparr>"

text \<open>\<open>shutil.copy2(src, dst)\<close> and writing a new file at \<open>dst\<close>; only existence is tracked.\<close>

definition create_file :: "path \<Rightarrow> filesystem \<Rightarrow> exn + filesystem" where
  "create_file dst fsys =
     (if dst \<in> set (denied fsys) then Inl (os_error ''PermissionError'' dst)
      else Inr (fsys\<lparr>present := (if dst \<in> set (present fsys) then present fsys
                                   else dst # present fsys)\<rparr>))"

definition copy2 :: "path \<Rightarrow> path \<Rightarrow> filesystem \<Rightarrow> exn + filesystem" where
  "copy2 src dst fsys =
     (if src \<notin> set (present fsys) then Inl (os_error ''FileNotFoundError'' src)
      else create_file dst fsys)"

section \<open>The PDF handler (\<open>core/pdf_handler.py\<close>)\<close>

text \<open>
  What the platform provides: the user's home directory, which PDF libraries were imported
  (\<open>PYPDF_AVAILABLE\<close>, \<open>PYMUPDF_AVAILABLE\<close>), and the directory name
  \<open>tempfile.mkdtemp\<close> picks below a base directory.
\<close>

record platform =
  home :: path
  pypdf_available :: bool
  pymupdf_available :: bool
  mkdtemp :: "path option \<Rightarrow> filesystem \<Rightarrow> exn + path"

type_synonym message = "string \<times> fmt_arg list"

text \<open>Opening a file with either PDF library: it raises unless the file is a readable PDF.\<close>

definition pdf_library_open :: "path \<Rightarrow> filesystem \<Rightarrow> exn + pdf_meta" where
  "pdf_library_open p fsys =
     (case pdf_meta fsys p of
        None \<Rightarrow> Inl (Exn LibraryError ''cannot read PDF: {}'' [ArgStr p])
      | Some m \<Rightarrow> Inr m)"

text \<open>The \<open>for\<close> loop of \<open>_merge_pdfs_pypdf\<close> and \<open>_merge_pdfs_pymupdf\<close>: the first
  exception raised, if any.\<close>

fun merge_append_all :: "path list \<Rightarrow> filesystem \<Rightarrow> exn option" where
  "merge_append_all [] fsys = None"
| "merge_append_all (pdf_path # rest) fsys =
     (if \<not> path_exists pdf_path fsys
      then Some (Exn PDFNotFoundError ''PDF file not found: {}'' [ArgStr pdf_path])
      else (case pdf_library_open pdf_path fsys of
              Inl e \<Rightarrow> Some e
            | Inr m \<Rightarrow> merge_append_all rest fsys))"

definition merge_pdfs_pypdf ::
  "path list \<Rightarrow> path \<Rightarrow> filesystem \<Rightarrow> (exn + bool) \<times> filesystem \<times> log_entry list" where
  "merge_pdfs_pypdf pdf_list output_path fsys =
     (case merge_append_all pdf_list fsys of
        Some e \<Rightarrow> (Inl e, fsys, [])
      | None \<Rightarrow>
          (case create_file output_path fsys of
             Inl e \<Rightarrow> (Inl e, fsys, [])
           | Inr fs1 \<Rightarrow>
               (Inr True, fs1,
                [(INFO, ''Merged {} PDFs to {}'',
                  [ArgInt (int (length pdf_list)), ArgStr output_path])])))"

text \<open>\<open>_merge_pdfs_pymupdf\<close> takes the same steps with the other library.\<close>

definition merge_pdfs_pymupdf ::
  "path list \<Rightarrow> path \<Rightarrow> filesystem \<Rightarrow> (exn + bool) \<times> filesystem \<times> log_entry list" where
  "merge_pdfs_pymupdf pdf_list output_path fsys =
     (case merge_append_all pdf_list fsys of
        Some e \<Rightarrow> (Inl e, fsys, [])
      | None \<Rightarrow>
          (case create_file output_path fsys of
             Inl e \<Rightarrow> (Inl e, fsys, [])
           | Inr fs1 \<Rightarrow>
               (Inr True, fs1,
                [(INFO, ''Merged {} PDFs to {}'',
                  [ArgInt (int (length pdf_list)), ArgStr output_path])])))"

definition merge_pdfs ::
  "platform \<Rightarrow> path list \<Rightarrow> path \<Rightarrow> filesystem
    \<Rightarrow> (exn + bool) \<times> filesystem \<times> log_entry list" where
  "merge_pdfs pf pdf_list output_path fsys =
     (if pdf_list = [] then (Inl (Exn PDFError ''No PDF files to merge'' []), fsys, [])
      else
        (case (if pypdf_available pf then merge_pdfs_pypdf pdf_list output_path fsys
               else if pymupdf_available pf then merge_pdfs_pymupdf pdf_list output_path fsys
               else (Inl (Exn PDFError ''No PDF library available for merging'' []), fsys, []))
         of (Inr ok, fs1, lg) \<Rightarrow> (Inr ok, fs1, lg)
          | (Inl e, fs1, lg) \<Rightarrow>
              (Inl (Exn PDFError ''Failed to merge PDFs: {}'' [ArgExc e]), fs1,
               lg @ [(ERROR, ''PDF merge failed: {}'', [ArgExc e])])))"

text \<open>
  \<open>validate_pdf_file\<close>. Of the dictionary it returns, the keys read by the coordinator
  are kept. \<open>size_mb\<close> is \<open>file_size / (1024 * 1024)\<close>, a division by a power of two,
  exact in floating point for every file below \<open>2 ^ 53\<close> bytes.
\<close>

record validation_result =
  vr_size_mb :: rat
  vr_valid :: bool
  vr_page_count :: int
  vr_encrypted :: bool
  vr_warnings :: "message list"

definition max_size_mb :: "settings option \<Rightarrow> int" where
  "max_size_mb sett = (case sett of None \<Rightarrow> 200 | Some st \<Rightarrow> st_max_pdf_size_mb st)"

definition get_pdf_info :: "platform \<Rightarrow> path \<Rightarrow> filesystem \<Rightarrow> exn + pdf_meta" where
  "get_pdf_info pf pdf_path fsys =
     (case (if pymupdf_available pf then pdf_library_open pdf_path fsys
            else if pypdf_available pf then pdf_library_open pdf_path fsys
            else Inl (Exn PDFError ''No PDF library available'' []))
      of Inr info \<Rightarrow> Inr info
       | Inl e \<Rightarrow>
           Inl (Exn PDFCorruptedError ''PDF file is corrupted or unreadable: {} ({})''
                  [ArgStr pdf_path, ArgExc e]))"

definition pdf_warnings :: "rat \<Rightarrow> pdf_meta \<Rightarrow> message list" where
  "pdf_warnings file_size_mb pdf_info =
     (if file_size_mb > 50 then [(''Large file size: {}MB'', [ArgFloat file_size_mb])] else [])
     @ (if pm_page_count pdf_info > 1000
        then [(''Many pages: {}'', [ArgInt (pm_page_count pdf_info)])] else [])
     @ (if pm_encrypted pdf_info then [(''PDF is encrypted'', [])] else [])"

definition validate_pdf_file ::
  "settings option \<Rightarrow> platform \<Rightarrow> path \<Rightarrow> filesystem
    \<Rightarrow> (exn + validation_result) \<times> log_entry list" where
  "validate_pdf_file sett pf pdf_path fsys =
     (case exists_call pdf_path fsys of
        Inl e \<Rightarrow> (Inl e, [])
      | Inr False \<Rightarrow>
          (Inl (Exn PDFNotFoundError ''PDF file not found: {}'' [ArgStr pdf_path]), [])
      | Inr True \<Rightarrow>
        (let file_size = size_bytes fsys pdf_path;
             file_size_mb = rat_of_nat file_size / (1024 * 1024);
             lg = (if file_size_mb > rat_of_int (max_size_mb sett)
                   then [(WARNING, ''PDF file exceeds size limit: {}MB > {}MB'',
                          [ArgFloat file_size_mb, ArgInt (max_size_mb sett)])]
                   else [])
         in case get_pdf_info pf pdf_path fsys of
              Inl e \<Rightarrow>
                if exn_class e = PDFNotFoundError then (Inl e, lg)
                else (Inl (Exn PDFCorruptedError ''PDF file is corrupted or unreadable: {} ({})''
                             [ArgStr pdf_path, ArgExc e]),
                      lg @ [(ERROR, ''PDF validation failed for {}: {}'',
                             [ArgStr pdf_path, ArgExc e])])
            | Inr pdf_info \<Rightarrow>
                (Inr \<lparr>vr_size_mb = file_size_mb,
                      vr_valid = True,
                      vr_page_count = pm_page_count pdf_info,
                      vr_encrypted = pm_encrypted pdf_info,
                      vr_warnings = pdf_warnings file_size_mb pdf_info\<rparr>,
                 lg @ [(INFO, ''PDF validated: {} ({} pages)'',
                        [ArgStr (path_name pdf_path), ArgInt (pm_page_count pdf_info)])])))"

text \<open>
  The loop shared by both \<open>cleanup_temp_files\<close> methods: a file that exists is removed;
  an exception raised by the test or by the removal is logged as a warning, under the
  method's own message, and the loop goes on.
\<close>

fun remove_each :: "string \<Rightarrow> path list \<Rightarrow> filesystem \<Rightarrow> filesystem \<times> log_entry list" where
  "remove_each msg [] fsys = (fsys, [])"
| "remove_each msg (temp_file # rest) fsys =
     (case (case exists_call temp_file fsys of
              Inl e \<Rightarrow> Inl e
            | Inr False \<Rightarrow> Inr fsys
            | Inr True \<Rightarrow> unlink temp_file fsys) of
        Inr fs1 \<Rightarrow> remove_each msg rest fs1
      | Inl e \<Rightarrow>
          (case remove_each msg rest fsys of
             (fs2, lg) \<Rightarrow> (fs2, (WARNING, msg, [ArgStr temp_file, ArgExc e]) # lg)))"

section \<open>The coordinator's state (\<open>core/appendix_manager.py\<close>)\<close>

record appendix_data =
  ad_path :: "path option"
  ad_title :: "string option"
  ad_page_count :: "int option"

record appendix_info =
  ai_title :: string
  ai_pdf_path :: path
  ai_page_count :: int
  ai_start_page :: int
  ai_end_page :: int

text \<open>
  The state of one session: the coordinator's two lists, the PDF handler's \<open>temp_dir\<close>
  and \<open>_temp_files\<close>, the state \<open>'d\<close> of the document backend, and the file system.
\<close>

record 'd state =
  appendices_added :: "appendix_info list"
  temp_files :: "path list"
  ph_temp_dir :: "path option"
  ph_temp_files :: "path list"
  document :: 'd
  fs :: filesystem

text \<open>
  The document backend (\<open>self.word_manager\<close>) is a collaborator given to the constructor;
  the coordinator uses three of its methods. Inserting and exporting may raise and may
  change the backend's own state; exporting also writes to the file system. Of the
  dictionary returned by \<open>get_document_info\<close> the keys \<open>name\<close> and \<open>path\<close> are kept
  (\<open>None\<close>: the key is absent).
\<close>

record doc_info =
  di_name :: "string option"
  di_path :: "path option"

record 'd word_manager =
  wm_add_appendix_section ::
    "string \<Rightarrow> int \<Rightarrow> heading_style option \<Rightarrow> 'd \<Rightarrow> (exn + bool) \<times> 'd"
  wm_export_as_pdf :: "path \<Rightarrow> 'd \<Rightarrow> filesystem \<Rightarrow> (exn + bool) \<times> 'd \<times> filesystem"
  wm_get_document_info :: "'d \<Rightarrow> doc_info"

definition calculate_start_page :: "appendix_info list \<Rightarrow> int" where
  "calculate_start_page apps =
     (if apps = [] then 10 else ai_end_page (last apps) + 1)"

text \<open>Python's \<open>not pdf_path\<close>: \<open>None\<close> and the empty string are falsy.\<close>

fun falsy :: "string option \<Rightarrow> bool" where
  "falsy None = True"
| "falsy (Some t) = (t = [])"

text \<open>\<open>appendix_data.get('title', 'Appendix')\<close> and \<open>appendix_data.get('page_count', 0)\<close>.\<close>

definition get_title :: "appendix_data \<Rightarrow> string" where
  "get_title appendix_data =
     (case ad_title appendix_data of None \<Rightarrow> ''Appendix'' | Some t \<Rightarrow> t)"

definition get_page_count :: "appendix_data \<Rightarrow> int" where
  "get_page_count appendix_data =
     (case ad_page_count appendix_data of None \<Rightarrow> 0 | Some n \<Rightarrow> n)"

text \<open>
  The body of the \<open>try\<close> block of \<open>add_appendix\<close>. Every function of the coordinator
  returns its result, the new state and the log calls it made.
\<close>

definition add_appendix_try ::
  "'d word_manager \<Rightarrow> settings option \<Rightarrow> appendix_data \<Rightarrow> 'd state
    \<Rightarrow> (exn + bool) \<times> 'd state \<times> log_entry list" where
  "add_appendix_try wm sett appendix_data s =
     (let pdf_path = ad_path appendix_data;
          title = get_title appendix_data;
          page_count = get_page_count appendix_data
      in if falsy pdf_path \<or> \<not> path_exists (the pdf_path) (fs s)
         then (Inl (Exn AppendixError ''PDF file not found: {}'' [arg_opt pdf_path]), s, [])
         else if page_count \<le> 0
         then (Inl (Exn AppendixError ''Invalid page count: {}'' [ArgInt page_count]), s, [])
         else
           (let heading = map_option st_heading_style sett;
                (r, d') = wm_add_appendix_section wm title page_count heading (document s);
                s1 = s\<lparr>document := d'\<rparr>
            in case r of
                 Inl e \<Rightarrow> (Inl e, s1, [])
               | Inr success \<Rightarrow>
                   if success
                   then (let appendix_info =
                               \<lparr>ai_title = title,
                                ai_pdf_path = the pdf_path,
                                ai_page_count = page_count,
                                ai_start_page = calculate_start_page (appendices_added s1),
                                ai_end_page =
                                  calculate_start_page (appendices_added s1) + page_count - 1\<rparr>
                         in (Inr True,
                             s1\<lparr>appendices_added := appendices_added s1 @ [appendix_info]\<rparr>,
                             [(INFO, ''Added appendix: {} ({} pages)'',
                               [ArgStr title, ArgInt page_count])]))
                   else (Inr False, s1, [])))"

definition add_appendix ::
  "'d word_manager \<Rightarrow> settings option \<Rightarrow> appendix_data \<Rightarrow> 'd state
    \<Rightarrow> (exn + bool) \<times> 'd state \<times> log_entry list" where
  "add_appendix wm sett appendix_data s =
     (case add_appendix_try wm sett appendix_data s of
        (Inr success, s1, lg) \<Rightarrow> (Inr success, s1, lg)
      | (Inl e, s1, lg) \<Rightarrow>
          (Inl (Exn AppendixError ''Failed to add appendix: {}'' [ArgExc e]), s1,
           lg @ [(ERROR, ''Failed to add appendix {}: {}'',
                  [ArgStr (case ad_title appendix_data of None \<Rightarrow> ''Unknown'' | Some t \<Rightarrow> t),
                   ArgExc e])]))"

text \<open>
  \<open>add_multiple_appendices\<close>: the loop with its counter, then the function. The result
  is a sum so that "does not raise" is a statement about the value.
\<close>

fun add_multiple_loop ::
  "'d word_manager \<Rightarrow> settings option \<Rightarrow> appendix_data list \<Rightarrow> nat \<Rightarrow> 'd state
    \<Rightarrow> nat \<times> 'd state \<times> log_entry list" where
  "add_multiple_loop wm sett [] success_count s = (success_count, s, [])"
| "add_multiple_loop wm sett (appendix_data # rest) success_count s =
     (case add_appendix wm sett appendix_data s of
        (Inr ok, s1, lg) \<Rightarrow>
          (case add_multiple_loop wm sett rest (if ok then success_count + 1 else success_count) s1 of
             (n, s2, lg2) \<Rightarrow> (n, s2, lg @ lg2))
      | (Inl e, s1, lg) \<Rightarrow>
          (case add_multiple_loop wm sett rest success_count s1 of
             (n, s2, lg2) \<Rightarrow>
               (n, s2,
                lg @ [(ERROR, ''Failed to add appendix {}: {}'',
                       [arg_opt (ad_title appendix_data), ArgExc e])] @ lg2)))"

definition add_multiple_appendices ::
  "'d word_manager \<Rightarrow> settings option \<Rightarrow> appendix_data list \<Rightarrow> 'd state
    \<Rightarrow> (exn + nat) \<times> 'd state \<times> log_entry list" where
  "add_multiple_appendices wm sett appendices_data s =
     (case add_multiple_loop wm sett appendices_data 0 s of
        (success_count, s1, lg) \<Rightarrow>
          (Inr success_count, s1,
           lg @ [(INFO, ''Added {}/{} appendices'',
                  [ArgInt (int success_count), ArgInt (int (length appendices_data))])]))"

text \<open>
  Calling \<open>add_appendix\<close> on each input in order, as a caller would do by hand: the
  outcome of every call and the state after the last one.
\<close>

fun add_each ::
  "'d word_manager \<Rightarrow> settings option \<Rightarrow> appendix_data list \<Rightarrow> 'd state
    \<Rightarrow> (exn + bool) list \<times> 'd state" where
  "add_each wm sett [] s = ([], s)"
| "add_each wm sett (appendix_data # rest) s =
     (case add_appendix wm sett appendix_data s of
        (r, s1, lg) \<Rightarrow> (case add_each wm sett rest s1 of (rs, s2) \<Rightarrow> (r # rs, s2)))"

text \<open>The page accounting of the list: each record's own arithmetic, and the chaining.\<close>

definition page_range_ok :: "appendix_info \<Rightarrow> bool" where
  "page_range_ok a = (ai_end_page a = ai_start_page a + ai_page_count a - 1)"

fun chained :: "int \<Rightarrow> appendix_info list \<Rightarrow> bool" where
  "chained start [] = True"
| "chained start (a # rest) =
     (ai_start_page a = start \<and> page_range_ok a \<and> chained (ai_end_page a + 1) rest)"

text \<open>
  The file name \<open>f"{doc_name}_with_appendices_{counter}.pdf"\<close>, and the loop
  \<open>while output_path.exists()\<close> of \<open>_replace_blank_pages\<close>. The loop ends because
  the names differ from counter to counter and finitely many paths exist.
\<close>

definition numbered_name :: "string \<Rightarrow> nat \<Rightarrow> string" where
  "numbered_name doc_name counter = doc_name @ ''_with_appendices_'' @ str_nat counter @ ''.pdf''"

lemma ord_chr_digit: "d < 10 \<Longrightarrow> ord (chr (ord CHR ''0'' + d)) = 48 + d"
  by (simp add: ord_def chr_def)

lemma str_nat_value: "foldl (\<lambda>a c. 10 * a + (ord c - 48)) 0 (str_nat n) = n"
proof (induction n rule: str_nat.induct)
  case (1 n)
  show ?case
  proof (cases "n < 10")
    case True
    then show ?thesis by (subst str_nat.simps) (simp add: ord_chr_digit)
  next
    case False
    with "1.IH" have "foldl (\<lambda>a c. 10 * a + (ord c - 48)) 0 (str_nat (n div 10)) = n div 10"
      by simp
    with False show ?thesis by (subst str_nat.simps) (simp add: ord_chr_digit)
  qed
qed

lemma str_nat_inj: "str_nat m = str_nat n \<Longrightarrow> m = n"
  by (metis str_nat_value)

lemma numbered_name_inj:
  "path_join d (numbered_name doc m) = path_join d (numbered_name doc n) \<Longrightarrow> m = n"
  by (simp add: path_join_def numbered_name_def str_nat_inj)

lemma finite_numbered: "finite {c. path_join d (numbered_name doc c) \<in> set xs}"
proof -
  have "inj (\<lambda>c. path_join d (numbered_name doc c))"
    by (rule injI) (rule numbered_name_inj)
  then have "finite ((\<lambda>c. path_join d (numbered_name doc c)) -` set xs)"
    by (rule finite_vimageI [rotated]) simp
  then show ?thesis by (simp add: vimage_def)
qed

function unique_output_path :: "path \<Rightarrow> string \<Rightarrow> filesystem \<Rightarrow> path \<Rightarrow> nat \<Rightarrow> path" where
  "unique_output_path output_dir doc_name fsys output_path counter =
     (if path_exists output_path fsys
      then unique_output_path output_dir doc_name fsys
             (path_join output_dir (numbered_name doc_name counter)) (counter + 1)
      else output_path)"
  by pat_completeness auto
termination
proof (relation "measure (\<lambda>(output_dir, doc_name, fsys, output_path, counter).
         if path_exists output_path fsys
         then 1 + card {c. counter \<le> c \<and> path_join output_dir (numbered_name doc_name c) \<in> set (present fsys)}
         else 0)", goal_cases)
  case 1
  then show ?case by simp
next
  case (2 output_dir doc_name fsys output_path counter)
  let ?S = "\<lambda>k. {c. k \<le> c \<and> path_join output_dir (numbered_name doc_name c) \<in> set (present fsys)}"
  have fin: "finite (?S counter)"
    using finite_numbered [of output_dir doc_name "present fsys"] by simp
  show ?case
  proof (cases "path_exists (path_join output_dir (numbered_name doc_name counter)) fsys")
    case True
    then have c: "counter \<in> ?S counter" by (simp add: path_exists_def)
    have "counter \<notin> ?S (counter + 1)" by simp
    moreover have "?S (counter + 1) \<subseteq> ?S counter" by auto
    ultimately have "?S (counter + 1) \<subset> ?S counter" using c by blast
    with fin have "card (?S (counter + 1)) < card (?S counter)"
      by (rule psubset_card_mono)
    with 2 True show ?thesis by (simp only: in_measure prod.case if_True)
  next
    case False
    with 2 show ?thesis by (simp only: in_measure prod.case if_True if_False)
  qed
qed

declare unique_output_path.simps [simp del]

text \<open>The default output path of \<open>_replace_blank_pages\<close>.\<close>

definition default_output_path :: "'d word_manager \<Rightarrow> platform \<Rightarrow> 'd state \<Rightarrow> path" where
  "default_output_path wm pf s =
     (let doc_info = wm_get_document_info wm (document s);
          doc_name = path_stem (case di_name doc_info of None \<Rightarrow> ''document'' | Some n \<Rightarrow> n);
          output_dir = path_join (home pf) ''Documents''
      in unique_output_path output_dir doc_name (fs s)
           (path_join output_dir (doc_name @ ''_with_appendices.pdf'')) 1)"

definition replace_blank_pages_try ::
  "'d word_manager \<Rightarrow> platform \<Rightarrow> path \<Rightarrow> path option \<Rightarrow> 'd state
    \<Rightarrow> (exn + path) \<times> 'd state \<times> log_entry list" where
  "replace_blank_pages_try wm pf word_pdf_path output_path s =
     (let out = (if falsy output_path then default_output_path wm pf s else the output_path)
      in case copy2 word_pdf_path out (fs s) of
           Inl e \<Rightarrow> (Inl e, s, [])
         | Inr fs1 \<Rightarrow>
             if appendices_added s \<noteq> []
             then (let pdf_list = [word_pdf_path] @ map ai_pdf_path (appendices_added s)
                   in case merge_pdfs pf pdf_list out fs1 of
                        (Inl e, fs2, lg) \<Rightarrow> (Inl e, s\<lparr>fs := fs2\<rparr>, lg)
                      | (Inr ok, fs2, lg) \<Rightarrow> (Inr out, s\<lparr>fs := fs2\<rparr>, lg))
             else (Inr out, s\<lparr>fs := fs1\<rparr>, []))"

definition replace_blank_pages ::
  "'d word_manager \<Rightarrow> platform \<Rightarrow> path \<Rightarrow> path option \<Rightarrow> 'd state
    \<Rightarrow> (exn + path) \<times> 'd state \<times> log_entry list" where
  "replace_blank_pages wm pf word_pdf_path output_path s =
     (case replace_blank_pages_try wm pf word_pdf_path output_path s of
        (Inr out, s1, lg) \<Rightarrow> (Inr out, s1, lg)
      | (Inl e, s1, lg) \<Rightarrow>
          (Inl (Exn PDFError ''Failed to replace blank pages: {}'' [ArgExc e]), s1, lg))"

text \<open>\<open>PDFHandler.create_temp_directory\<close>; \<open>mkdir(parents=True, exist_ok=True)\<close> is
  the creation of the base directory.\<close>

definition create_temp_directory ::
  "settings option \<Rightarrow> platform \<Rightarrow> 'd state \<Rightarrow> (exn + path) \<times> 'd state \<times> log_entry list" where
  "create_temp_directory sett pf s =
     (if falsy (ph_temp_dir s)
      then (let base_temp_dir = (case sett of None \<Rightarrow> None | Some st \<Rightarrow> st_temp_directory st)
            in case (if falsy base_temp_dir \<or> path_exists (the base_temp_dir) (fs s)
                     then Inr (fs s)
                     else create_file (the base_temp_dir) (fs s)) of
                 Inl e \<Rightarrow> (Inl e, s, [])
               | Inr fs1 \<Rightarrow>
                   (case mkdtemp pf base_temp_dir fs1 of
                      Inl e \<Rightarrow> (Inl e, s\<lparr>fs := fs1\<rparr>, [])
                    | Inr d \<Rightarrow>
                        (Inr d, s\<lparr>fs := fs1\<lparr>present := d # present fs1\<rparr>, ph_temp_dir := Some d\<rparr>,
                         [(DEBUG, ''Created temp directory: {}'', [ArgStr d])])))
      else (Inr (the (ph_temp_dir s)), s, []))"

definition export_word_to_pdf ::
  "'d word_manager \<Rightarrow> settings option \<Rightarrow> platform \<Rightarrow> 'd state
    \<Rightarrow> (exn + path) \<times> 'd state \<times> log_entry list" where
  "export_word_to_pdf wm sett pf s =
     (case create_temp_directory sett pf s of
        (Inl e, s1, lg) \<Rightarrow> (Inl (Exn WordDocumentError ''PDF export failed: {}'' [ArgExc e]), s1, lg)
      | (Inr temp_dir, s1, lg) \<Rightarrow>
          (let temp_pdf = path_join temp_dir ''word_document.pdf''
           in case wm_export_as_pdf wm temp_pdf (document s1) (fs s1) of
                (Inl e, d1, fs1) \<Rightarrow>
                  (Inl (Exn WordDocumentError ''PDF export failed: {}'' [ArgExc e]),
                   s1\<lparr>document := d1, fs := fs1\<rparr>, lg)
              | (Inr success, d1, fs1) \<Rightarrow>
                  if \<not> success \<or> \<not> path_exists temp_pdf fs1
                  then (Inl (Exn WordDocumentError ''PDF export failed: {}''
                               [ArgExc (Exn WordDocumentError
                                          ''Failed to export Word document to PDF'' [])]),
                        s1\<lparr>document := d1, fs := fs1\<rparr>, lg)
                  else (Inr temp_pdf,
                        s1\<lparr>document := d1, fs := fs1, temp_files := temp_files s1 @ [temp_pdf]\<rparr>,
                        lg)))"

definition create_final_pdf_try ::
  "'d word_manager \<Rightarrow> settings option \<Rightarrow> platform \<Rightarrow> path option \<Rightarrow> 'd state
    \<Rightarrow> (exn + path) \<times> 'd state \<times> log_entry list" where
  "create_final_pdf_try wm sett pf output_path s =
     (case export_word_to_pdf wm sett pf s of
        (Inl e, s1, lg1) \<Rightarrow> (Inl e, s1, lg1)
      | (Inr temp_word_pdf, s1, lg1) \<Rightarrow>
          (case replace_blank_pages wm pf temp_word_pdf output_path s1 of
             (Inl e, s2, lg2) \<Rightarrow> (Inl e, s2, lg1 @ lg2)
           | (Inr final_pdf, s2, lg2) \<Rightarrow>
               (case (if path_exists temp_word_pdf (fs s2) then unlink temp_word_pdf (fs s2)
                      else Inr (fs s2)) of
                  Inl e \<Rightarrow> (Inl e, s2, lg1 @ lg2)
                | Inr fs3 \<Rightarrow>
                    (Inr final_pdf, s2\<lparr>fs := fs3\<rparr>,
                     lg1 @ lg2 @ [(INFO, ''Created final PDF: {}'', [ArgStr final_pdf])]))))"

definition create_final_pdf ::
  "'d word_manager \<Rightarrow> settings option \<Rightarrow> platform \<Rightarrow> path option \<Rightarrow> 'd state
    \<Rightarrow> (exn + path) \<times> 'd state \<times> log_entry list" where
  "create_final_pdf wm sett pf output_path s =
     (case create_final_pdf_try wm sett pf output_path s of
        (Inr final_pdf, s1, lg) \<Rightarrow> (Inr final_pdf, s1, lg)
      | (Inl e, s1, lg) \<Rightarrow>
          (Inl (Exn AppendixError ''Failed to create final PDF: {}'' [ArgExc e]), s1,
           lg @ [(ERROR, ''Failed to create final PDF: {}'', [ArgExc e])]))"

text \<open>
  \<open>validate_appendices\<close>: what one input contributes, then the loop over
  \<open>enumerate(appendices_data)\<close>. The existence test stands before the \<open>try\<close> block,
  so an exception it raises leaves the function; everything \<open>validate_pdf_file\<close> raises
  is caught and becomes an entry.
\<close>

definition validate_one ::
  "settings option \<Rightarrow> platform \<Rightarrow> nat \<Rightarrow> appendix_data \<Rightarrow> filesystem
    \<Rightarrow> (exn + message list) \<times> log_entry list" where
  "validate_one sett pf i appendix fsys =
     (let appendix_id = ''Appendix '' @ str_nat (i + 1);
          pdf_path = ad_path appendix
      in if falsy pdf_path
         then (Inr [(''{}: No PDF file specified'', [ArgStr appendix_id])], [])
         else
           (case exists_call (the pdf_path) fsys of
              Inl e \<Rightarrow> (Inl e, [])
            | Inr False \<Rightarrow>
                (Inr [(''{}: PDF file not found: {}'',
                       [ArgStr appendix_id, ArgStr (the pdf_path)])], [])
            | Inr True \<Rightarrow>
                (case validate_pdf_file sett pf (the pdf_path) fsys of
                   (Inl e, lg) \<Rightarrow>
                     (Inr [(''{}: PDF validation failed: {}'', [ArgStr appendix_id, ArgExc e])],
                      lg)
                 | (Inr pdf_info, lg) \<Rightarrow>
                     (Inr ((if \<not> vr_valid pdf_info
                            then [(''{}: Invalid PDF file'', [ArgStr appendix_id])] else [])
                           @ (if vr_page_count pdf_info \<le> 0
                              then [(''{}: PDF has no pages'', [ArgStr appendix_id])] else [])
                           @ (if vr_size_mb pdf_info > rat_of_int (max_size_mb sett)
                              then [(''{}: File too large ({}MB > {}MB)'',
                                     [ArgStr appendix_id, ArgFloat (vr_size_mb pdf_info),
                                      ArgInt (max_size_mb sett)])]
                              else [])
                           @ map (\<lambda>warning. (''{}: '' @ fst warning,
                                              ArgStr appendix_id # snd warning))
                                 (vr_warnings pdf_info)),
                      lg))))"

fun validate_appendices_loop ::
  "settings option \<Rightarrow> platform \<Rightarrow> nat \<Rightarrow> appendix_data list \<Rightarrow> filesystem
    \<Rightarrow> (exn + message list) \<times> log_entry list" where
  "validate_appendices_loop sett pf i [] fsys = (Inr [], [])"
| "validate_appendices_loop sett pf i (appendix # rest) fsys =
     (case validate_one sett pf i appendix fsys of
        (Inl e, lg) \<Rightarrow> (Inl e, lg)
      | (Inr errors, lg) \<Rightarrow>
          (case validate_appendices_loop sett pf (i + 1) rest fsys of
             (Inl e, lg2) \<Rightarrow> (Inl e, lg @ lg2)
           | (Inr errors2, lg2) \<Rightarrow> (Inr (errors @ errors2), lg @ lg2)))"

definition validate_appendices ::
  "settings option \<Rightarrow> platform \<Rightarrow> appendix_data list \<Rightarrow> filesystem
    \<Rightarrow> (exn + message list) \<times> log_entry list" where
  "validate_appendices sett pf appendices_data fsys =
     validate_appendices_loop sett pf 0 appendices_data fsys"

text \<open>
  The two \<open>cleanup_temp_files\<close> methods: the PDF handler's, then the coordinator's. In
  the handler everything stands in one \<open>try\<close> block: when the existence test of the
  temporary directory raises, the handler logs the error and the two resets that follow
  the test are not reached.
\<close>

definition pdf_handler_cleanup_temp_files ::
  "'d state \<Rightarrow> (exn + unit) \<times> 'd state \<times> log_entry list" where
  "pdf_handler_cleanup_temp_files s =
     (case remove_each ''Could not remove temp file {}: {}'' (ph_temp_files s) (fs s) of
        (fs1, lg1) \<Rightarrow>
          (case (if falsy (ph_temp_dir s) then Inr False
                 else exists_call (the (ph_temp_dir s)) fs1) of
             Inl e \<Rightarrow>
               (Inr (), s\<lparr>fs := fs1\<rparr>,
                lg1 @ [(ERROR, ''Error during temp file cleanup: {}'', [ArgExc e])])
           | Inr True \<Rightarrow>
               (Inr (),
                s\<lparr>ph_temp_files := [], ph_temp_dir := None,
                  fs := rmtree_ignore_errors (the (ph_temp_dir s)) fs1\<rparr>,
                lg1 @ [(DEBUG, ''Cleaned up temp directory: {}'',
                        [ArgStr (the (ph_temp_dir s))])])
           | Inr False \<Rightarrow>
               (Inr (), s\<lparr>ph_temp_files := [], ph_temp_dir := None, fs := fs1\<rparr>, lg1)))"

definition cleanup_temp_files ::
  "'d state \<Rightarrow> (exn + unit) \<times> 'd state \<times> log_entry list" where
  "cleanup_temp_files s =
     (case remove_each ''Could not delete temp file {}: {}'' (temp_files s) (fs s) of
        (fs1, lg1) \<Rightarrow>
          (case pdf_handler_cleanup_temp_files (s\<lparr>temp_files := [], fs := fs1\<rparr>) of
             (Inl e, s2, lg2) \<Rightarrow> (Inl e, s2, lg1 @ lg2)
           | (Inr u, s2, lg2) \<Rightarrow>
               (Inr (), s2, lg1 @ lg2 @ [(INFO, ''Cleaned up temporary files'', [])])))"

text \<open>
  The log the specification describes for \<open>add_multiple_appendices\<close>: what each call of
  \<open>add_appendix\<close> logs, followed by one error line of the loop when the call raised.
\<close>

fun add_each_log ::
  "'d word_manager \<Rightarrow> settings option \<Rightarrow> appendix_data list \<Rightarrow> 'd state \<Rightarrow> log_entry list" where
  "add_each_log wm sett [] s = []"
| "add_each_log wm sett (appendix_data # rest) s =
     (case add_appendix wm sett appendix_data s of
        (r, s1, lg) \<Rightarrow>
          lg @ (case r of
                  Inl e \<Rightarrow> [(ERROR, ''Failed to add appendix {}: {}'',
                             [arg_opt (ad_title appendix_data), ArgExc e])]
                | Inr ok \<Rightarrow> [])
          @ add_each_log wm sett rest s1)"

text \<open>A document backend for examples: it counts the sections it inserted, raises on an
  empty title and declines the title \<open>skip\<close>.\<close>

definition demo_wm :: "nat word_manager" where
  "demo_wm =
     \<lparr>wm_add_appendix_section = (\<lambda>title page_count heading d.
          if title = [] then (Inl (Exn WordDocumentError ''No active document'' []), d)
          else if title = ''skip'' then (Inr False, d)
          else (Inr True, d + 1)),
      wm_export_as_pdf = (\<lambda>p d fsys. (Inr True, d, fsys\<lparr>present := p # present fsys\<rparr>)),
      wm_get_document_info =
        (\<lambda>d. \<lparr>di_name = Some ''report.docx'', di_path = Some ''/work/report.docx''\<rparr>)\<rparr>"

definition demo_fs :: filesystem where
  "demo_fs =
     \<lparr>present = [''/in/a.pdf'', ''/in/b.pdf'', ''/in/bad.pdf''],
      denied = [],
      stat_denied = [],
      size_bytes = (\<lambda>p. 4096),
      pdf_meta = (\<lambda>p. if p = ''/in/bad.pdf'' then None
                       else Some \<lparr>pm_page_count = 3, pm_encrypted = False\<rparr>)\<rparr>"

definition demo_state :: "nat state" where
  "demo_state =
     \<lparr>appendices_added = [], temp_files = [], ph_temp_dir = None, ph_temp_files = [],
      document = 0, fs = demo_fs\<rparr>"

definition demo_pf :: platform where
  "demo_pf =
     \<lparr>home = ''/home/user'', pypdf_available = True, pymupdf_available = False,
      mkdtemp = (\<lambda>base fsys. Inr (path_join (case base of None \<Rightarrow> ''/tmp'' | Some b \<Rightarrow> b)
                                     ''word_appendix_x1''))\<rparr>"

definition demo_input :: "path \<Rightarrow> string \<Rightarrow> int \<Rightarrow> appendix_data" where
  "demo_input p t n = \<lparr>ad_path = Some p, ad_title = Some t, ad_page_count = Some n\<rparr>"

definition demo_inputs :: "appendix_data list" where
  "demo_inputs = [demo_input ''/in/a.pdf'' ''Appendix A'' 3, demo_input ''/in/b.pdf'' ''Appendix B'' 5]"

definition demo_mixed :: "appendix_data list" where
  "demo_mixed =
     [demo_input ''/in/a.pdf'' ''Appendix A'' 3,
      demo_input ''/in/missing.pdf'' ''Appendix B'' 2,
      demo_input ''/in/b.pdf'' ''skip'' 4,
      demo_input ''/in/b.pdf'' ''Appendix D'' 0,
      demo_input ''/in/b.pdf'' [] 1,
      demo_input ''/in/b.pdf'' ''Appendix F'' 5]"

text \<open>
  The count of entries as the specification states it: one per missing file, and, from
  what the PDF backend reports for a file, one for a non-positive page count, one for a
  size above the configured maximum and one per warning.
\<close>

definition missing_file :: "appendix_data \<Rightarrow> filesystem \<Rightarrow> bool" where
  "missing_file a fsys = (falsy (ad_path a) \<or> \<not> path_exists (the (ad_path a)) fsys)"

definition claimed_entries :: "settings option \<Rightarrow> platform \<Rightarrow> filesystem \<Rightarrow> appendix_data \<Rightarrow> nat" where
  "claimed_entries sett pf fsys a =
     (if missing_file a fsys then 1
      else (case fst (validate_pdf_file sett pf (the (ad_path a)) fsys) of
              Inl e \<Rightarrow> 0
            | Inr pdf_info \<Rightarrow>
                (if vr_page_count pdf_info \<le> 0 then 1 else 0)
                + (if vr_size_mb pdf_info > rat_of_int (max_size_mb sett) then 1 else 0)
                + length (vr_warnings pdf_info)))"

definition claimed_entry_count ::
  "settings option \<Rightarrow> platform \<Rightarrow> appendix_data list \<Rightarrow> filesystem \<Rightarrow> nat" where
  "claimed_entry_count sett pf data fsys = sum_list (map (claimed_entries sett pf fsys) data)"

text \<open>An input whose file exists and whose validation by the PDF backend raises.\<close>

definition validation_raises :: "settings option \<Rightarrow> platform \<Rightarrow> filesystem \<Rightarrow> appendix_data \<Rightarrow> bool" where
  "validation_raises sett pf fsys a =
     (\<not> missing_file a fsys \<and> isl (fst (validate_pdf_file sett pf (the (ad_path a)) fsys)))"

definition demo_checks :: "appendix_data list" where
  "demo_checks =
     [demo_input ''/in/a.pdf'' ''Appendix A'' 3,
      demo_input ''/in/missing.pdf'' ''Appendix B'' 2,
      demo_input ''/in/bad.pdf'' ''Appendix C'' 1,
      \<lparr>ad_path = None, ad_title = Some ''Appendix D'', ad_page_count = Some 1\<rparr>]"

text \<open>A session whose exported PDF cannot be deleted, and the same session without
  that refusal.\<close>

definition locked_state :: "nat state" where
  "locked_state =
     \<lparr>appendices_added = [],
      temp_files = [''/tmp/w/word_document.pdf''],
      ph_temp_dir = Some ''/tmp/w'',
      ph_temp_files = [''/tmp/w/thumb.png''],
      document = 0,
      fs = \<lparr>present = [''/tmp/w'', ''/tmp/w/word_document.pdf'', ''/tmp/w/thumb.png'', ''/in/a.pdf''],
             denied = [''/tmp/w/word_document.pdf''],
             stat_denied = [],
             size_bytes = (\<lambda>p. 4096),
             pdf_meta = (\<lambda>p. None)\<rparr>\<rparr>"

definition unlocked_state :: "nat state" where
  "unlocked_state = locked_state\<lparr>fs := (fs locked_state)\<lparr>denied := []\<rparr>\<rparr>"

text \<open>A session after the export, with two appendices added and two earlier output files
  in the default place.\<close>

definition exported_state :: "nat state" where
  "exported_state =
     \<lparr>appendices_added =
        [\<lparr>ai_title = ''Appendix A'', ai_pdf_path = ''/in/a.pdf'', ai_page_count = 3,
          ai_start_page = 10, ai_end_page = 12\<rparr>,
         \<lparr>ai_title = ''Appendix B'', ai_pdf_path = ''/in/b.pdf'', ai_page_count = 5,
          ai_start_page = 13, ai_end_page = 17\<rparr>],
      temp_files = [''/tmp/w/word_document.pdf''],
      ph_temp_dir = Some ''/tmp/w'',
      ph_temp_files = [],
      document = 2,
      fs = demo_fs\<lparr>present :=
             [''/tmp/w'', ''/tmp/w/word_document.pdf'', ''/in/a.pdf'', ''/in/b.pdf'',
              ''/home/user/Documents/report_with_appendices.pdf'',
              ''/home/user/Documents/report_with_appendices_1.pdf'']\<rparr>\<rparr>"

text \<open>The example file system with one path whose existence cannot be tested, a session
  whose temporary directory cannot be tested, and a session ready for the final PDF.\<close>

definition guarded_fs :: filesystem where
  "guarded_fs = demo_fs\<lparr>stat_denied := [''/secret/c.pdf'']\<rparr>"

definition unsearchable_state :: "nat state" where
  "unsearchable_state =
     unlocked_state\<lparr>fs := (fs unlocked_state)\<lparr>stat_denied := [''/tmp/w'']\<rparr>\<rparr>"

definition ready_state :: "nat state" where
  "ready_state =
     \<lparr>appendices_added =
        [\<lparr>ai_title = ''Appendix A'', ai_pdf_path = ''/in/a.pdf'', ai_page_count = 3,
          ai_start_page = 10, ai_end_page = 12\<rparr>,
         \<lparr>ai_title = ''Appendix B'', ai_pdf_path = ''/in/b.pdf'', ai_page_count = 5,
          ai_start_page = 13, ai_end_page = 17\<rparr>],
      temp_files = [], ph_temp_dir = None, ph_temp_files = [], document = 2, fs = demo_fs\<rparr>"

text \<open>One step of the cleanup loop: the test and, for a file that exists, the removal.\<close>

definition remove_step :: "path \<Rightarrow> filesystem \<Rightarrow> exn + filesystem" where
  "remove_step t fsys =
     (case exists_call t fsys of
        Inl e \<Rightarrow> Inl e
      | Inr False \<Rightarrow> Inr fsys
      | Inr True \<Rightarrow> unlink t fsys)"

section \<open>Titles\<close>

lemma alphabetical_titles:
  "map (generate_appendix_title ''alphabetical'') [0..<26] =
   map (\<lambda>c. ''Appendix '' @ [c]) ''ABCDEFGHIJKLMNOPQRSTUVWXYZ''"
  by code_simp

text \<open>
  C7. The first two appendices added to an empty list are titled "Appendix A" and
  "Appendix B" under the alphabetical style and "Appendix 1" and "Appendix 2" under the
  numeric style; in general the title at zero-based index \<open>i\<close> is "Appendix " followed
  by the number \<open>i + 1\<close>, or by the \<open>(i+1)\<close>-th letter of the alphabet where there is
  one (\<open>i < 26\<close>).
\<close>

theorem appendix_titles:
  "process_pdf_files_titles ''alphabetical'' 0 [p1, p2] [] = [''Appendix A'', ''Appendix B'']
   \<and> process_pdf_files_titles ''numeric'' 0 [p1, p2] [] = [''Appendix 1'', ''Appendix 2'']
   \<and> generate_appendix_title ''numeric'' i = ''Appendix '' @ str_nat (i + 1)
   \<and> (i < 26 \<longrightarrow> generate_appendix_title ''alphabetical'' i
                    = ''Appendix '' @ [''ABCDEFGHIJKLMNOPQRSTUVWXYZ'' ! i])"
proof (intro conjI impI)
  have a0: "generate_appendix_title ''alphabetical'' 0 = ''Appendix A''" by code_simp
  have a1: "generate_appendix_title ''alphabetical'' 1 = ''Appendix B''" by code_simp
  show "process_pdf_files_titles ''alphabetical'' 0 [p1, p2] [] = [''Appendix A'', ''Appendix B'']"
    using a0 a1 by simp
  have n0: "generate_appendix_title ''numeric'' 0 = ''Appendix 1''" by code_simp
  have n1: "generate_appendix_title ''numeric'' 1 = ''Appendix 2''" by code_simp
  show "process_pdf_files_titles ''numeric'' 0 [p1, p2] [] = [''Appendix 1'', ''Appendix 2'']"
    using n0 n1 by simp
  show "generate_appendix_title ''numeric'' i = ''Appendix '' @ str_nat (i + 1)"
    by (simp add: generate_appendix_title_def)
next
  assume i: "i < 26"
  let ?g = "generate_appendix_title ''alphabetical''"
  have "?g i = map ?g [0..<26] ! i" using i by simp
  also have "\<dots> = map (\<lambda>c. ''Appendix '' @ [c]) ''ABCDEFGHIJKLMNOPQRSTUVWXYZ'' ! i"
    by (simp only: alphabetical_titles)
  also have "\<dots> = ''Appendix '' @ [''ABCDEFGHIJKLMNOPQRSTUVWXYZ'' ! i]"
    using i by (subst nth_map) simp_all
  finally show "?g i = ''Appendix '' @ [''ABCDEFGHIJKLMNOPQRSTUVWXYZ'' ! i]" .
qed

theorem appendix_titles_witness:
  "(2::nat) < 26 \<and> generate_appendix_title ''alphabetical'' 2 = ''Appendix C''
   \<and> generate_appendix_title ''numeric'' 2 = ''Appendix 3''"
proof -
  have "str_nat (2 + 1) = ''3''" by code_simp
  then show ?thesis using appendix_titles [of "[]" "[]" 2] by simp
qed

section \<open>Adding appendices\<close>

lemma add_appendix_try_cases:
  "add_appendix_try wm sett a s = (r, s1, lg) \<Longrightarrow>
     (appendices_added s1 = appendices_added s \<and> r \<noteq> Inr True)
   \<or> (r = Inr True \<and> (\<exists>info. appendices_added s1 = appendices_added s @ [info]
         \<and> ai_start_page info = calculate_start_page (appendices_added s)
         \<and> page_range_ok info))"
  by (auto simp: add_appendix_try_def Let_def page_range_ok_def split: if_splits prod.splits sum.splits)

lemma add_appendix_cases:
  assumes "add_appendix wm sett a s = (r, s1, lg)"
  shows "(appendices_added s1 = appendices_added s \<and> r \<noteq> Inr True)
   \<or> (r = Inr True \<and> (\<exists>info. appendices_added s1 = appendices_added s @ [info]
         \<and> ai_start_page info = calculate_start_page (appendices_added s)
         \<and> page_range_ok info))"
proof -
  obtain r0 s0 l0 where t: "add_appendix_try wm sett a s = (r0, s0, l0)"
    by (cases "add_appendix_try wm sett a s") auto
  from assms t have "s1 = s0" and "r = Inr True \<longleftrightarrow> r0 = Inr True"
    by (auto simp: add_appendix_def split: sum.splits)
  with add_appendix_try_cases [OF t] show ?thesis by auto
qed

lemma chained_snoc:
  "chained k (xs @ [a]) \<longleftrightarrow>
     chained k xs \<and> page_range_ok a
     \<and> ai_start_page a = (if xs = [] then k else ai_end_page (last xs) + 1)"
  by (induction xs arbitrary: k) auto

lemma add_appendix_chained:
  assumes "add_appendix wm sett a s = (r, s1, lg)" and "chained 10 (appendices_added s)"
  shows "chained 10 (appendices_added s1)"
  using add_appendix_cases [OF assms(1)] assms(2)
  by (auto simp: chained_snoc calculate_start_page_def)

lemma add_each_chained:
  "add_each wm sett inputs s = (rs, s') \<Longrightarrow> chained 10 (appendices_added s)
    \<Longrightarrow> chained 10 (appendices_added s')"
proof (induction inputs arbitrary: s rs s')
  case Nil
  then show ?case by simp
next
  case (Cons a inputs)
  obtain r s1 lg where a: "add_appendix wm sett a s = (r, s1, lg)"
    by (cases "add_appendix wm sett a s") auto
  obtain rs2 s2 where b: "add_each wm sett inputs s1 = (rs2, s2)"
    by (cases "add_each wm sett inputs s1") auto
  from Cons.prems(1) a b have "s' = s2" by simp
  moreover have "chained 10 (appendices_added s1)"
    using add_appendix_chained [OF a Cons.prems(2)] .
  ultimately show ?case using Cons.IH [OF b] by simp
qed

lemma chained_nth:
  "chained k xs \<Longrightarrow> i < length xs \<Longrightarrow>
     page_range_ok (xs ! i)
     \<and> ai_start_page (xs ! i) = (if i = 0 then k else ai_end_page (xs ! (i - 1)) + 1)"
proof (induction xs arbitrary: k i)
  case Nil
  then show ?case by simp
next
  case (Cons a xs)
  show ?case
  proof (cases i)
    case 0
    with Cons.prems show ?thesis by simp
  next
    case (Suc j)
    with Cons.prems have "chained (ai_end_page a + 1) xs" and "j < length xs" by auto
    from Cons.IH [OF this] Suc show ?thesis by (cases j) auto
  qed
qed

text \<open>
  C1. After any sequence of \<open>add_appendix\<close> calls on a fresh coordinator, every record
  of \<open>appendices_added\<close> has \<open>end_page = start_page + page_count - 1\<close>; the first
  record starts at the placeholder page 10 and every later record starts one page after the
  end of the record before it.
\<close>

theorem page_accounting:
  assumes "appendices_added s = []"
    and "add_each wm sett inputs s = (rs, s')"
    and "i < length (appendices_added s')"
  shows "ai_end_page (appendices_added s' ! i)
           = ai_start_page (appendices_added s' ! i) + ai_page_count (appendices_added s' ! i) - 1
         \<and> ai_start_page (appendices_added s' ! i)
           = (if i = 0 then 10 else ai_end_page (appendices_added s' ! (i - 1)) + 1)"
proof -
  have "chained 10 (appendices_added s')"
    using add_each_chained [OF assms(2)] assms(1) by simp
  from chained_nth [OF this assms(3)] show ?thesis by (simp add: page_range_ok_def)
qed

theorem page_accounting_witness:
  "appendices_added demo_state = []
   \<and> map (\<lambda>a. (ai_start_page a, ai_page_count a, ai_end_page a))
         (appendices_added (snd (add_each demo_wm None demo_inputs demo_state)))
       = [(10, 3, 12), (13, 5, 17)]"
proof -
  let ?run = "add_each demo_wm None demo_inputs demo_state"
  have run: "map (\<lambda>a. (ai_start_page a, ai_page_count a, ai_end_page a))
               (appendices_added (snd ?run)) = [(10, 3, 12), (13, 5, 17)]"
    by code_simp
  have h1: "appendices_added demo_state = []" by (simp add: demo_state_def)
  have h2: "?run = (fst ?run, snd ?run)" by simp
  have "length (map (\<lambda>a. (ai_start_page a, ai_page_count a, ai_end_page a))
               (appendices_added (snd ?run))) = 2"
    by (simp only: run) simp
  then have h3: "1 < length (appendices_added (snd ?run))" by simp
  from page_accounting [OF h1 h2 h3] run h1 show ?thesis by simp
qed

text \<open>
  C9. A call of \<open>add_appendix\<close> that does not return true (it raises, or the backend
  reports no success) leaves \<open>appendices_added\<close> as it was; a record is appended exactly
  when the call returns true, so the length of the list grows by at most one and never
  shrinks.
\<close>

theorem add_appendix_list_change:
  assumes "add_appendix wm sett a s = (r, s1, lg)"
  shows "(r \<noteq> Inr True \<longrightarrow> appendices_added s1 = appendices_added s)
       \<and> (r = Inr True \<longleftrightarrow> (\<exists>info. appendices_added s1 = appendices_added s @ [info]))
       \<and> length (appendices_added s) \<le> length (appendices_added s1)
       \<and> length (appendices_added s1) \<le> length (appendices_added s) + 1"
  using add_appendix_cases [OF assms] by auto

theorem add_appendix_list_change_witness:
  "fst (add_appendix demo_wm None (demo_input ''/in/b.pdf'' ''skip'' 4) demo_state) = Inr False
   \<and> appendices_added (fst (snd (add_appendix demo_wm None (demo_input ''/in/b.pdf'' ''skip'' 4) demo_state)))
       = appendices_added demo_state
   \<and> fst (add_appendix demo_wm None (demo_input ''/in/a.pdf'' ''Appendix A'' 3) demo_state) = Inr True
   \<and> length (appendices_added (fst (snd (add_appendix demo_wm None (demo_input ''/in/a.pdf'' ''Appendix A'' 3) demo_state))))
       = length (appendices_added demo_state) + 1"
proof -
  let ?c = "add_appendix demo_wm None (demo_input ''/in/b.pdf'' ''skip'' 4) demo_state"
  let ?d = "add_appendix demo_wm None (demo_input ''/in/a.pdf'' ''Appendix A'' 3) demo_state"
  have r: "fst ?c = Inr False" by code_simp
  have h: "?c = (fst ?c, fst (snd ?c), snd (snd ?c))" by simp
  have r': "fst ?d = Inr True" by code_simp
  have h': "?d = (fst ?d, fst (snd ?d), snd (snd ?d))" by simp
  from add_appendix_list_change [OF h] r have 1: "appendices_added (fst (snd ?c)) = appendices_added demo_state"
    by simp
  from add_appendix_list_change [OF h'] r'
  have "\<exists>info. appendices_added (fst (snd ?d)) = appendices_added demo_state @ [info]"
    by simp
  then have 2: "length (appendices_added (fst (snd ?d))) = length (appendices_added demo_state) + 1"
    by auto
  from r r' 1 2 show ?thesis by simp
qed

text \<open>
  C6. \<open>add_appendix\<close> raises an \<open>AppendixError\<close> whenever the path is missing, empty
  or names no existing file, whenever the page count is not positive, and whenever the
  document backend's insertion call raises; it returns a flag only when the path exists, the
  page count is positive and the backend call returned, and the flag is the backend's.
\<close>

theorem add_appendix_result:
  assumes "add_appendix wm sett a s = (r, s1, lg)"
  shows "(falsy (ad_path a) \<or> \<not> path_exists (the (ad_path a)) (fs s) \<or> get_page_count a \<le> 0
            \<or> (\<exists>e. fst (wm_add_appendix_section wm (get_title a) (get_page_count a)
                          (map_option st_heading_style sett) (document s)) = Inl e)
          \<longrightarrow> (\<exists>e. r = Inl e \<and> is_AppendixError e))
       \<and> (\<forall>b. r = Inr b \<longrightarrow>
            \<not> falsy (ad_path a) \<and> path_exists (the (ad_path a)) (fs s) \<and> 0 < get_page_count a
            \<and> fst (wm_add_appendix_section wm (get_title a) (get_page_count a)
                     (map_option st_heading_style sett) (document s)) = Inr b)"
  using assms
  by (auto simp: add_appendix_def add_appendix_try_def Let_def split: if_splits prod.splits sum.splits)

theorem add_appendix_result_witness:
  "\<not> path_exists ''/in/missing.pdf'' (fs demo_state)
   \<and> (\<exists>e. fst (add_appendix demo_wm None (demo_input ''/in/missing.pdf'' ''Appendix B'' 2) demo_state) = Inl e
          \<and> is_AppendixError e)
   \<and> fst (add_appendix demo_wm None (demo_input ''/in/a.pdf'' ''Appendix A'' 3) demo_state) = Inr True
   \<and> path_exists ''/in/a.pdf'' (fs demo_state)"
proof -
  let ?a = "demo_input ''/in/missing.pdf'' ''Appendix B'' 2"
  let ?c = "add_appendix demo_wm None ?a demo_state"
  let ?b = "demo_input ''/in/a.pdf'' ''Appendix A'' 3"
  let ?d = "add_appendix demo_wm None ?b demo_state"
  have m: "\<not> path_exists ''/in/missing.pdf'' (fs demo_state)" by code_simp
  have p: "the (ad_path ?a) = ''/in/missing.pdf''" by (simp add: demo_input_def)
  have h: "?c = (fst ?c, fst (snd ?c), snd (snd ?c))" by simp
  from add_appendix_result [OF h] m p
  have 1: "\<exists>e. fst ?c = Inl e \<and> is_AppendixError e" by simp
  have r': "fst ?d = Inr True" by code_simp
  have p': "the (ad_path ?b) = ''/in/a.pdf''" by (simp add: demo_input_def)
  have h': "?d = (fst ?d, fst (snd ?d), snd (snd ?d))" by simp
  from add_appendix_result [OF h'] r' p'
  have 2: "path_exists ''/in/a.pdf'' (fs demo_state)" by simp
  from m 1 r' 2 show ?thesis by simp
qed

lemma add_multiple_loop_add_each:
  "add_multiple_loop wm sett data c s = (n, s', lg) \<Longrightarrow> add_each wm sett data s = (rs, s2)
   \<Longrightarrow> n = c + length (filter (\<lambda>x. x = Inr True) rs) \<and> s' = s2 \<and> length rs = length data
       \<and> (\<forall>e. Inl e \<in> set rs \<longrightarrow>
             (\<exists>t. (ERROR, ''Failed to add appendix {}: {}'', [t, ArgExc e]) \<in> set lg))"
proof (induction data arbitrary: c s n s' lg rs s2)
  case Nil
  then show ?case by auto
next
  case (Cons a data)
  obtain r s1 l1 where a: "add_appendix wm sett a s = (r, s1, l1)"
    by (cases "add_appendix wm sett a s") auto
  obtain rs' s3 where b: "add_each wm sett data s1 = (rs', s3)"
    by (cases "add_each wm sett data s1") auto
  from Cons.prems(2) a b have rs: "rs = r # rs'" and s2: "s2 = s3" by auto
  show ?case
  proof (cases r)
    case (Inl e)
    obtain n' s4 l2 where c: "add_multiple_loop wm sett data c s1 = (n', s4, l2)"
      by (cases "add_multiple_loop wm sett data c s1") auto
    from Cons.prems(1) a Inl c have eq: "n = n'" "s' = s4"
      "lg = l1 @ [(ERROR, ''Failed to add appendix {}: {}'', [arg_opt (ad_title a), ArgExc e])] @ l2"
      by auto
    from Cons.IH [OF c b] eq rs s2 Inl show ?thesis by auto
  next
    case (Inr ok)
    obtain n' s4 l2 where c: "add_multiple_loop wm sett data (if ok then c + 1 else c) s1 = (n', s4, l2)"
      by (cases "add_multiple_loop wm sett data (if ok then c + 1 else c) s1") auto
    from Cons.prems(1) a Inr c have eq: "n = n'" "s' = s4" "lg = l1 @ l2"
      by auto
    from Cons.IH [OF c b] eq rs s2 Inr show ?thesis by auto
  qed
qed

lemma add_multiple_loop_log:
  "add_multiple_loop wm sett data c s = (n, s', lg) \<Longrightarrow> lg = add_each_log wm sett data s"
proof (induction data arbitrary: c s n s' lg)
  case Nil
  then show ?case by simp
next
  case (Cons a data)
  obtain r s1 l1 where a: "add_appendix wm sett a s = (r, s1, l1)"
    by (cases "add_appendix wm sett a s") auto
  show ?case
  proof (cases r)
    case (Inl e)
    obtain n' s4 l2 where c: "add_multiple_loop wm sett data c s1 = (n', s4, l2)"
      by (cases "add_multiple_loop wm sett data c s1") auto
    from Cons.prems a Inl c have
      "lg = l1 @ [(ERROR, ''Failed to add appendix {}: {}'', [arg_opt (ad_title a), ArgExc e])] @ l2"
      by auto
    with Cons.IH [OF c] a Inl show ?thesis by simp
  next
    case (Inr ok)
    obtain n' s4 l2 where c: "add_multiple_loop wm sett data (if ok then c + 1 else c) s1 = (n', s4, l2)"
      by (cases "add_multiple_loop wm sett data (if ok then c + 1 else c) s1") auto
    from Cons.prems a Inr c have "lg = l1 @ l2" by auto
    with Cons.IH [OF c] a Inr show ?thesis by simp
  qed
qed

text \<open>
  C2 (as stated, refuted). The claim has every failing item logged. An item for which the
  backend returns a false flag is a failure, it is counted in \<open>M\<close>, and nothing is logged
  for it: the only log line of the run is the summary.
\<close>

theorem add_multiple_silent_failure_counterexample:
  "fst (add_each demo_wm None [demo_input ''/in/b.pdf'' ''skip'' 4] demo_state) = [Inr False]
   \<and> fst (add_multiple_appendices demo_wm None [demo_input ''/in/b.pdf'' ''skip'' 4] demo_state)
       = Inr 0
   \<and> snd (snd (add_multiple_appendices demo_wm None [demo_input ''/in/b.pdf'' ''skip'' 4] demo_state))
       = [(INFO, ''Added {}/{} appendices'', [ArgInt 0, ArgInt 1])]"
  by code_simp

text \<open>
  C2 (amended). \<open>add_multiple_appendices\<close> never raises: for \<open>N\<close> inputs of which \<open>M\<close> do
  not return true when \<open>add_appendix\<close> is applied to them in order, it returns \<open>N - M\<close>
  and leaves the state those calls leave. Its log is what the calls log, with one error
  line of the loop after each call that raised and none after a call that returned a flag,
  followed by the summary line.
\<close>

theorem add_multiple_appendices_count:
  assumes "add_multiple_appendices wm sett data s = (r, s', lg)"
    and "add_each wm sett data s = (rs, s2)"
  shows "r = Inr (length data - length (filter (\<lambda>x. x \<noteq> Inr True) rs))
       \<and> length rs = length data
       \<and> s' = s2
       \<and> (\<forall>e. Inl e \<in> set rs \<longrightarrow>
             (\<exists>t. (ERROR, ''Failed to add appendix {}: {}'', [t, ArgExc e]) \<in> set lg))
       \<and> lg = add_each_log wm sett data s
                @ [(INFO, ''Added {}/{} appendices'',
                    [ArgInt (int (length data - length (filter (\<lambda>x. x \<noteq> Inr True) rs))),
                     ArgInt (int (length data))])]"
proof -
  obtain n s1 l1 where l: "add_multiple_loop wm sett data 0 s = (n, s1, l1)"
    by (cases "add_multiple_loop wm sett data 0 s") auto
  from assms(1) l have r: "r = Inr n" "s' = s1"
    "lg = l1 @ [(INFO, ''Added {}/{} appendices'', [ArgInt (int n), ArgInt (int (length data))])]"
    by (auto simp: add_multiple_appendices_def)
  from add_multiple_loop_add_each [OF l assms(2)]
  have n: "n = length (filter (\<lambda>x. x = Inr True) rs)" and s: "s1 = s2" and len: "length rs = length data"
    and lgp: "\<forall>e. Inl e \<in> set rs \<longrightarrow>
             (\<exists>t. (ERROR, ''Failed to add appendix {}: {}'', [t, ArgExc e]) \<in> set l1)"
    by auto
  have "length (filter (\<lambda>x. x = Inr True) rs) + length (filter (\<lambda>x. x \<noteq> Inr True) rs) = length rs"
    by (rule sum_length_filter_compl)
  with n len have nm: "n = length data - length (filter (\<lambda>x. x \<noteq> Inr True) rs)" by simp
  have l1: "l1 = add_each_log wm sett data s" using add_multiple_loop_log [OF l] .
  from r s len lgp nm l1 show ?thesis by auto
qed

theorem add_multiple_appendices_count_witness:
  "fst (add_multiple_appendices demo_wm None demo_mixed demo_state) = Inr 2
   \<and> length demo_mixed = 6
   \<and> length (filter (\<lambda>x. x \<noteq> Inr True) (fst (add_each demo_wm None demo_mixed demo_state))) = 4
   \<and> length (filter (\<lambda>x. fst x = ERROR)
               (snd (snd (add_multiple_appendices demo_wm None demo_mixed demo_state)))) = 6
   \<and> filter (\<lambda>x. fst x = ERROR) (add_each_log demo_wm None [demo_input ''/in/b.pdf'' ''skip'' 4] demo_state)
       = []
   \<and> filter (\<lambda>x. fst x = ERROR)
        (add_each_log demo_wm None [demo_input ''/in/b.pdf'' ''Appendix D'' 0] demo_state)
       = [(ERROR, ''Failed to add appendix {}: {}'',
           [ArgStr ''Appendix D'', ArgExc (Exn AppendixError ''Invalid page count: {}'' [ArgInt 0])]),
          (ERROR, ''Failed to add appendix {}: {}'',
           [ArgStr ''Appendix D'',
            ArgExc (Exn AppendixError ''Failed to add appendix: {}''
                      [ArgExc (Exn AppendixError ''Invalid page count: {}'' [ArgInt 0])])])]"
proof -
  let ?m = "add_multiple_appendices demo_wm None demo_mixed demo_state"
  let ?e = "add_each demo_wm None demo_mixed demo_state"
  have h1: "?m = (fst ?m, fst (snd ?m), snd (snd ?m))" by simp
  have h2: "?e = (fst ?e, snd ?e)" by simp
  have n: "length demo_mixed = 6" by (simp add: demo_mixed_def)
  have f: "length (filter (\<lambda>x. x \<noteq> Inr True) (fst ?e)) = 4" by code_simp
  have g: "length (filter (\<lambda>x. fst x = ERROR) (add_each_log demo_wm None demo_mixed demo_state)) = 6"
    by code_simp
  have k: "filter (\<lambda>x. fst x = ERROR)
             (add_each_log demo_wm None [demo_input ''/in/b.pdf'' ''skip'' 4] demo_state) = []"
    by code_simp
  have k2: "filter (\<lambda>x. fst x = ERROR)
        (add_each_log demo_wm None [demo_input ''/in/b.pdf'' ''Appendix D'' 0] demo_state)
       = [(ERROR, ''Failed to add appendix {}: {}'',
           [ArgStr ''Appendix D'', ArgExc (Exn AppendixError ''Invalid page count: {}'' [ArgInt 0])]),
          (ERROR, ''Failed to add appendix {}: {}'',
           [ArgStr ''Appendix D'',
            ArgExc (Exn AppendixError ''Failed to add appendix: {}''
                      [ArgExc (Exn AppendixError ''Invalid page count: {}'' [ArgInt 0])])])]"
    by code_simp
  note t = add_multiple_appendices_count [OF h1 h2]
  from t n f have 1: "fst ?m = Inr 2" by simp
  from t have "snd (snd ?m) = add_each_log demo_wm None demo_mixed demo_state
                @ [(INFO, ''Added {}/{} appendices'',
                    [ArgInt (int (length demo_mixed - length (filter (\<lambda>x. x \<noteq> Inr True) (fst ?e)))),
                     ArgInt (int (length demo_mixed))])]" by simp
  with g have 2: "length (filter (\<lambda>x. fst x = ERROR) (snd (snd ?m))) = 6" by simp
  from 1 n f 2 k k2 show ?thesis by simp
qed

section \<open>Merging PDFs\<close>

lemma merge_append_all_missing:
  "\<exists>p \<in> set l. \<not> path_exists p fsys \<Longrightarrow> merge_append_all l fsys \<noteq> None"
  by (induction l) (auto split: sum.splits)

lemma merge_append_all_None:
  "merge_append_all l fsys = None \<Longrightarrow> \<forall>p \<in> set l. path_exists p fsys"
  using merge_append_all_missing by blast

lemma merge_append_all_first_missing:
  "\<forall>q \<in> set pre. path_exists q fsys \<and> pdf_meta fsys q \<noteq> None \<Longrightarrow> \<not> path_exists p fsys
   \<Longrightarrow> merge_append_all (pre @ p # post) fsys
       = Some (Exn PDFNotFoundError ''PDF file not found: {}'' [ArgStr p])"
  by (induction pre) (auto simp: pdf_library_open_def split: sum.splits option.splits)

lemma create_file_exists: "create_file p fsys = Inr fs1 \<Longrightarrow> path_exists p fs1"
  by (auto simp: create_file_def path_exists_def split: if_splits)

lemma merge_with_library:
  "merge_pdfs_pypdf l out fsys = merge_pdfs_pymupdf l out fsys"
  by (simp add: merge_pdfs_pypdf_def merge_pdfs_pymupdf_def)

lemma merge_pdfs_pypdf_cases:
  "merge_pdfs_pypdf l out fsys = (r, fs1, lg) \<Longrightarrow>
     (case merge_append_all l fsys of
        Some e \<Rightarrow> r = Inl e
      | None \<Rightarrow> (\<exists>e. r = Inl e) \<or> (r = Inr True \<and> path_exists out fs1))"
  by (auto simp: merge_pdfs_pypdf_def dest: create_file_exists split: option.splits sum.splits)

text \<open>
  C10 (as stated, refuted). The claim has every missing input path reported as a
  \<open>PDFError\<close> that wraps a \<open>PDFNotFoundError\<close>. With an unreadable file before the
  missing one, the library's own exception is raised first and is the one wrapped.
\<close>

theorem merge_pdfs_wrap_counterexample:
  "\<not> path_exists ''/in/missing.pdf'' demo_fs
   \<and> fst (merge_pdfs demo_pf [''/in/bad.pdf'', ''/in/missing.pdf''] ''/out/all.pdf'' demo_fs)
       = Inl (Exn PDFError ''Failed to merge PDFs: {}''
                [ArgExc (Exn LibraryError ''cannot read PDF: {}'' [ArgStr ''/in/bad.pdf''])])"
  by code_simp

text \<open>
  C10 (amended). \<open>merge_pdfs\<close> raises a \<open>PDFError\<close> for an empty list and whenever
  some input path does not exist; the \<open>PDFError\<close> wraps the \<open>PDFNotFoundError\<close> of the
  first missing path when a PDF library is available and every path before it exists and
  is readable. It returns only \<open>True\<close>, and only when every input exists and the
  output file has been written.
\<close>

theorem merge_pdfs_result:
  assumes "merge_pdfs pf pdf_list out fsys = (r, fs1, lg)"
  shows "(pdf_list = [] \<longrightarrow> r = Inl (Exn PDFError ''No PDF files to merge'' []))
       \<and> ((\<exists>p \<in> set pdf_list. \<not> path_exists p fsys) \<longrightarrow> (\<exists>e. r = Inl e \<and> exn_class e = PDFError))
       \<and> (\<forall>pre p post.
             (pypdf_available pf \<or> pymupdf_available pf) \<and> pdf_list = pre @ p # post
             \<and> (\<forall>q \<in> set pre. path_exists q fsys \<and> pdf_meta fsys q \<noteq> None)
             \<and> \<not> path_exists p fsys
             \<longrightarrow> r = Inl (Exn PDFError ''Failed to merge PDFs: {}''
                          [ArgExc (Exn PDFNotFoundError ''PDF file not found: {}'' [ArgStr p])]))
       \<and> (\<forall>b. r = Inr b \<longrightarrow> b \<and> (\<forall>p \<in> set pdf_list. path_exists p fsys) \<and> path_exists out fs1)"
proof (cases "pdf_list = []")
  case True
  with assms show ?thesis by (auto simp: merge_pdfs_def)
next
  case False
  define inner where "inner =
    (if pypdf_available pf then merge_pdfs_pypdf pdf_list out fsys
     else if pymupdf_available pf then merge_pdfs_pymupdf pdf_list out fsys
     else (Inl (Exn PDFError ''No PDF library available for merging'' []), fsys, []))"
  obtain r0 f0 l0 where inner: "inner = (r0, f0, l0)" by (cases inner) auto
  from assms False inner have r: "r = (case r0 of Inr ok \<Rightarrow> Inr ok
        | Inl e \<Rightarrow> Inl (Exn PDFError ''Failed to merge PDFs: {}'' [ArgExc e]))" and f: "fs1 = f0"
    by (auto simp: merge_pdfs_def inner_def [symmetric] split: sum.splits)
  have lib: "(pypdf_available pf \<or> pymupdf_available pf) \<Longrightarrow> merge_pdfs_pypdf pdf_list out fsys = (r0, f0, l0)"
    using inner by (auto simp: inner_def merge_with_library split: if_splits)
  have nolib: "\<not> (pypdf_available pf \<or> pymupdf_available pf) \<Longrightarrow> r0 = Inl (Exn PDFError ''No PDF library available for merging'' [])"
    using inner by (auto simp: inner_def)
  have 1: "(\<exists>p \<in> set pdf_list. \<not> path_exists p fsys) \<longrightarrow> (\<exists>e. r = Inl e \<and> exn_class e = PDFError)"
  proof
    assume m: "\<exists>p \<in> set pdf_list. \<not> path_exists p fsys"
    show "\<exists>e. r = Inl e \<and> exn_class e = PDFError"
    proof (cases "pypdf_available pf \<or> pymupdf_available pf")
      case True
      from merge_pdfs_pypdf_cases [OF lib [OF True]] merge_append_all_missing [OF m]
      obtain e where "r0 = Inl e" by (auto split: option.splits)
      with r show ?thesis by simp
    next
      case False
      with nolib r show ?thesis by simp
    qed
  qed
  have 2: "\<forall>pre p post.
             (pypdf_available pf \<or> pymupdf_available pf) \<and> pdf_list = pre @ p # post
             \<and> (\<forall>q \<in> set pre. path_exists q fsys \<and> pdf_meta fsys q \<noteq> None)
             \<and> \<not> path_exists p fsys
             \<longrightarrow> r = Inl (Exn PDFError ''Failed to merge PDFs: {}''
                          [ArgExc (Exn PDFNotFoundError ''PDF file not found: {}'' [ArgStr p])])"
  proof (intro allI impI, elim conjE)
    fix pre p post
    assume a: "pypdf_available pf \<or> pymupdf_available pf" "pdf_list = pre @ p # post"
      "\<forall>q \<in> set pre. path_exists q fsys \<and> pdf_meta fsys q \<noteq> None" "\<not> path_exists p fsys"
    from merge_append_all_first_missing [OF a(3) a(4)] a(2)
    have "merge_append_all pdf_list fsys = Some (Exn PDFNotFoundError ''PDF file not found: {}'' [ArgStr p])"
      by simp
    with merge_pdfs_pypdf_cases [OF lib [OF a(1)]]
    have "r0 = Inl (Exn PDFNotFoundError ''PDF file not found: {}'' [ArgStr p])" by simp
    with r show "r = Inl (Exn PDFError ''Failed to merge PDFs: {}''
                          [ArgExc (Exn PDFNotFoundError ''PDF file not found: {}'' [ArgStr p])])"
      by simp
  qed
  have 3: "\<forall>b. r = Inr b \<longrightarrow> b \<and> (\<forall>p \<in> set pdf_list. path_exists p fsys) \<and> path_exists out fs1"
  proof (intro allI impI)
    fix b assume b: "r = Inr b"
    with r have r0: "r0 = Inr b" by (auto split: sum.splits)
    with nolib have a: "pypdf_available pf \<or> pymupdf_available pf" by auto
    from merge_pdfs_pypdf_cases [OF lib [OF a]] r0
    have "merge_append_all pdf_list fsys = None \<and> b \<and> path_exists out f0"
      by (auto split: option.splits)
    with merge_append_all_None f
    show "b \<and> (\<forall>p \<in> set pdf_list. path_exists p fsys) \<and> path_exists out fs1" by blast
  qed
  from False 1 2 3 show ?thesis by blast
qed

theorem merge_pdfs_result_witness:
  "\<not> path_exists ''/in/missing.pdf'' demo_fs
   \<and> fst (merge_pdfs demo_pf [''/in/a.pdf'', ''/in/missing.pdf''] ''/out/all.pdf'' demo_fs)
       = Inl (Exn PDFError ''Failed to merge PDFs: {}''
                [ArgExc (Exn PDFNotFoundError ''PDF file not found: {}'' [ArgStr ''/in/missing.pdf''])])
   \<and> fst (merge_pdfs demo_pf [''/in/a.pdf'', ''/in/b.pdf''] ''/out/all.pdf'' demo_fs) = Inr True
   \<and> path_exists ''/out/all.pdf'' (fst (snd (merge_pdfs demo_pf [''/in/a.pdf'', ''/in/b.pdf''] ''/out/all.pdf'' demo_fs)))"
proof -
  let ?m = "merge_pdfs demo_pf [''/in/a.pdf'', ''/in/missing.pdf''] ''/out/all.pdf'' demo_fs"
  let ?g = "merge_pdfs demo_pf [''/in/a.pdf'', ''/in/b.pdf''] ''/out/all.pdf'' demo_fs"
  have h: "?m = (fst ?m, fst (snd ?m), snd (snd ?m))" by simp
  have h': "?g = (fst ?g, fst (snd ?g), snd (snd ?g))" by simp
  have lib: "pypdf_available demo_pf \<or> pymupdf_available demo_pf" by (simp add: demo_pf_def)
  have pre: "\<forall>q \<in> set [''/in/a.pdf'']. path_exists q demo_fs \<and> pdf_meta demo_fs q \<noteq> None"
    by (simp add: demo_fs_def path_exists_def)
  have mis: "\<not> path_exists ''/in/missing.pdf'' demo_fs" by (simp add: demo_fs_def path_exists_def)
  have spl: "[''/in/a.pdf'', ''/in/missing.pdf''] = [''/in/a.pdf''] @ ''/in/missing.pdf'' # []" by simp
  from merge_pdfs_result [OF h] lib pre mis spl
  have 1: "fst ?m = Inl (Exn PDFError ''Failed to merge PDFs: {}''
                [ArgExc (Exn PDFNotFoundError ''PDF file not found: {}'' [ArgStr ''/in/missing.pdf''])])"
    by blast
  have r: "fst ?g = Inr True" by code_simp
  from merge_pdfs_result [OF h'] r have 2: "path_exists ''/out/all.pdf'' (fst (snd ?g))" by blast
  from mis 1 r 2 show ?thesis by simp
qed

section \<open>Validating appendices\<close>

lemma exists_call_returns:
  "p \<notin> set (stat_denied fsys) \<Longrightarrow> exists_call p fsys = Inr (path_exists p fsys)"
  by (simp add: exists_call_def)

lemma exists_call_raises:
  "p \<in> set (stat_denied fsys) \<Longrightarrow> exists_call p fsys = Inl (os_error ''OSError'' p)"
  by (simp add: exists_call_def)

lemma validate_pdf_file_valid:
  "validate_pdf_file sett pf p fsys = (Inr info, lg) \<Longrightarrow> vr_valid info"
  by (auto simp: validate_pdf_file_def Let_def split: if_splits sum.splits bool.splits)

lemma validate_one_length:
  assumes "falsy (ad_path a) \<or> the (ad_path a) \<notin> set (stat_denied fsys)"
  shows "\<exists>errors. fst (validate_one sett pf i a fsys) = Inr errors
           \<and> length errors
               = claimed_entries sett pf fsys a + (if validation_raises sett pf fsys a then 1 else 0)"
proof (cases "falsy (ad_path a)")
  case True
  then show ?thesis
    by (simp add: validate_one_def claimed_entries_def validation_raises_def missing_file_def Let_def)
next
  case False
  with assms have ex: "exists_call (the (ad_path a)) fsys = Inr (path_exists (the (ad_path a)) fsys)"
    by (simp add: exists_call_returns)
  show ?thesis
  proof (cases "path_exists (the (ad_path a)) fsys")
    case np: False
    with False ex show ?thesis
      by (simp add: validate_one_def claimed_entries_def validation_raises_def missing_file_def Let_def)
  next
    case True
    obtain r lg where v: "validate_pdf_file sett pf (the (ad_path a)) fsys = (r, lg)"
      by (cases "validate_pdf_file sett pf (the (ad_path a)) fsys") auto
    show ?thesis
    proof (cases r)
      case (Inl e)
      with False True ex v show ?thesis
        by (simp add: validate_one_def claimed_entries_def validation_raises_def missing_file_def Let_def)
    next
      case (Inr info)
      with v have "vr_valid info" using validate_pdf_file_valid by blast
      with Inr False True ex v show ?thesis
        by (simp add: validate_one_def claimed_entries_def validation_raises_def missing_file_def Let_def)
    qed
  qed
qed

lemma validate_one_raises:
  "\<not> falsy (ad_path a) \<Longrightarrow> the (ad_path a) \<in> set (stat_denied fsys)
    \<Longrightarrow> fst (validate_one sett pf i a fsys) = Inl (os_error ''OSError'' (the (ad_path a)))"
  by (simp add: validate_one_def Let_def exists_call_raises)

lemma validate_appendices_loop_length:
  assumes "\<forall>a \<in> set data. falsy (ad_path a) \<or> the (ad_path a) \<notin> set (stat_denied fsys)"
  shows "\<exists>errors. fst (validate_appendices_loop sett pf i data fsys) = Inr errors
           \<and> length errors = claimed_entry_count sett pf data fsys
                              + length (filter (validation_raises sett pf fsys) data)"
  using assms
proof (induction data arbitrary: i)
  case Nil
  then show ?case by (simp add: claimed_entry_count_def)
next
  case (Cons a data)
  from Cons.prems have a: "falsy (ad_path a) \<or> the (ad_path a) \<notin> set (stat_denied fsys)"
    and rest: "\<forall>a \<in> set data. falsy (ad_path a) \<or> the (ad_path a) \<notin> set (stat_denied fsys)"
    by auto
  from validate_one_length [OF a, of sett pf i] obtain e1 where
    e1: "fst (validate_one sett pf i a fsys) = Inr e1"
      "length e1 = claimed_entries sett pf fsys a + (if validation_raises sett pf fsys a then 1 else 0)"
    by blast
  from Cons.IH [OF rest, of "i + 1"] obtain e2 where
    e2: "fst (validate_appendices_loop sett pf (i + 1) data fsys) = Inr e2"
      "length e2 = claimed_entry_count sett pf data fsys
                    + length (filter (validation_raises sett pf fsys) data)"
    by blast
  from e1(1) obtain l1 where v1: "validate_one sett pf i a fsys = (Inr e1, l1)"
    by (cases "validate_one sett pf i a fsys") auto
  from e2(1) obtain l2 where v2: "validate_appendices_loop sett pf (i + 1) data fsys = (Inr e2, l2)"
    by (cases "validate_appendices_loop sett pf (i + 1) data fsys") auto
  have "fst (validate_appendices_loop sett pf i (a # data) fsys) = Inr (e1 @ e2)"
    using v1 v2 by simp
  with e1(2) e2(2) show ?case by (simp add: claimed_entry_count_def)
qed

lemma validate_appendices_loop_raises:
  assumes "\<forall>b \<in> set pre. falsy (ad_path b) \<or> the (ad_path b) \<notin> set (stat_denied fsys)"
    and "\<not> falsy (ad_path a)" and "the (ad_path a) \<in> set (stat_denied fsys)"
  shows "fst (validate_appendices_loop sett pf i (pre @ a # post) fsys)
           = Inl (os_error ''OSError'' (the (ad_path a)))"
  using assms(1)
proof (induction pre arbitrary: i)
  case Nil
  from validate_one_raises [OF assms(2,3), of sett pf i]
  obtain l where "validate_one sett pf i a fsys = (Inl (os_error ''OSError'' (the (ad_path a))), l)"
    by (cases "validate_one sett pf i a fsys") auto
  then show ?case by simp
next
  case (Cons b pre)
  from Cons.prems have b: "falsy (ad_path b) \<or> the (ad_path b) \<notin> set (stat_denied fsys)"
    and rest: "\<forall>b \<in> set pre. falsy (ad_path b) \<or> the (ad_path b) \<notin> set (stat_denied fsys)"
    by auto
  from validate_one_length [OF b, of sett pf i] obtain e1 l1 where
    v1: "validate_one sett pf i b fsys = (Inr e1, l1)"
    by (cases "validate_one sett pf i b fsys") auto
  from Cons.IH [OF rest, of "i + 1"] obtain l2 where
    "validate_appendices_loop sett pf (i + 1) (pre @ a # post) fsys
       = (Inl (os_error ''OSError'' (the (ad_path a))), l2)"
    by (cases "validate_appendices_loop sett pf (i + 1) (pre @ a # post) fsys") auto
  with v1 show ?case by simp
qed

lemma str_nat_one: "str_nat (Suc 0) = ''1''"
  by code_simp

lemmas demo_defs =
  demo_input_def demo_fs_def demo_pf_def path_exists_def exists_call_def validate_pdf_file_def
  get_pdf_info_def pdf_library_open_def max_size_mb_def pdf_warnings_def missing_file_def
  claimed_entries_def claimed_entry_count_def validation_raises_def validate_appendices_def
  validate_one_def demo_checks_def

text \<open>
  C4 (as stated, refuted). A file that exists but that the PDF backend cannot read is not
  missing, has no reported page count, size or warning, and so contributes nothing to the
  count the claim states; \<open>validate_appendices\<close> returns one entry for it.
\<close>

theorem validate_appendices_count_counterexample:
  "path_exists ''/in/bad.pdf'' demo_fs
   \<and> claimed_entry_count None demo_pf [demo_input ''/in/bad.pdf'' ''Appendix C'' 1] demo_fs = 0
   \<and> fst (validate_appendices None demo_pf [demo_input ''/in/bad.pdf'' ''Appendix C'' 1] demo_fs)
       = Inr [(''{}: PDF validation failed: {}'',
               [ArgStr ''Appendix 1'',
                ArgExc (Exn PDFCorruptedError ''PDF file is corrupted or unreadable: {} ({})''
                  [ArgStr ''/in/bad.pdf'',
                   ArgExc (Exn PDFCorruptedError ''PDF file is corrupted or unreadable: {} ({})''
                     [ArgStr ''/in/bad.pdf'',
                      ArgExc (Exn LibraryError ''cannot read PDF: {}'' [ArgStr ''/in/bad.pdf''])])])])]"
  by (simp add: demo_defs Let_def str_nat_one)

text \<open>
  C4 (amended). Where the existence test returns for every path given,
  \<open>validate_appendices\<close> does not raise, and the list it returns has one entry per
  missing file, and for every other file either one entry when the PDF backend's validation
  raises, or one entry for a reported page count that is not positive, one for a reported
  size above the configured maximum, and one per reported warning. The second part records
  the other case: the exception of the first existence test that raises leaves the function.
\<close>

theorem validate_appendices_entries:
  "(( \<forall>a \<in> set data. falsy (ad_path a) \<or> the (ad_path a) \<notin> set (stat_denied fsys))
     \<longrightarrow> (\<exists>errors. fst (validate_appendices sett pf data fsys) = Inr errors
           \<and> length errors = claimed_entry_count sett pf data fsys
                              + length (filter (validation_raises sett pf fsys) data)))
   \<and> (\<forall>pre a post.
         data = pre @ a # post
         \<and> (\<forall>b \<in> set pre. falsy (ad_path b) \<or> the (ad_path b) \<notin> set (stat_denied fsys))
         \<and> \<not> falsy (ad_path a) \<and> the (ad_path a) \<in> set (stat_denied fsys)
         \<longrightarrow> fst (validate_appendices sett pf data fsys)
               = Inl (os_error ''OSError'' (the (ad_path a))))"
  using validate_appendices_loop_length [of data fsys sett pf 0]
    validate_appendices_loop_raises [of _ fsys _ sett pf 0]
  by (auto simp: validate_appendices_def)

theorem validate_appendices_entries_witness:
  "stat_denied demo_fs = []
   \<and> claimed_entry_count None demo_pf demo_checks demo_fs = 2
   \<and> length (filter (validation_raises None demo_pf demo_fs) demo_checks) = 1
   \<and> (\<exists>errors. fst (validate_appendices None demo_pf demo_checks demo_fs) = Inr errors
         \<and> length errors = 3)
   \<and> ''/secret/c.pdf'' \<in> set (stat_denied guarded_fs)
   \<and> fst (validate_appendices None demo_pf
            [demo_input ''/in/a.pdf'' ''Appendix A'' 3, demo_input ''/secret/c.pdf'' ''Appendix B'' 2,
             demo_input ''/in/b.pdf'' ''Appendix C'' 1] guarded_fs)
       = Inl (os_error ''OSError'' ''/secret/c.pdf'')"
proof -
  have h: "\<forall>a \<in> set demo_checks. falsy (ad_path a) \<or> the (ad_path a) \<notin> set (stat_denied demo_fs)"
    by (simp add: demo_fs_def)
  have c: "claimed_entry_count None demo_pf demo_checks demo_fs = 2"
    by (simp add: demo_defs Let_def)
  have f: "length (filter (validation_raises None demo_pf demo_fs) demo_checks) = 1"
    by (simp add: demo_defs Let_def)
  note t1 = validate_appendices_entries [of demo_checks demo_fs None demo_pf, THEN conjunct1]
  from t1 h c f
  have 1: "\<exists>errors. fst (validate_appendices None demo_pf demo_checks demo_fs) = Inr errors
         \<and> length errors = 3" by simp
  let ?d = "[demo_input ''/in/a.pdf'' ''Appendix A'' 3, demo_input ''/secret/c.pdf'' ''Appendix B'' 2,
             demo_input ''/in/b.pdf'' ''Appendix C'' 1]"
  have s: "?d = [demo_input ''/in/a.pdf'' ''Appendix A'' 3] @ demo_input ''/secret/c.pdf'' ''Appendix B'' 2
                 # [demo_input ''/in/b.pdf'' ''Appendix C'' 1]" by simp
  have g: "''/secret/c.pdf'' \<in> set (stat_denied guarded_fs)" by (simp add: guarded_fs_def)
  have p: "\<forall>b \<in> set [demo_input ''/in/a.pdf'' ''Appendix A'' 3].
             falsy (ad_path b) \<or> the (ad_path b) \<notin> set (stat_denied guarded_fs)"
    by (simp add: guarded_fs_def demo_input_def)
  have q: "\<not> falsy (ad_path (demo_input ''/secret/c.pdf'' ''Appendix B'' 2))
           \<and> the (ad_path (demo_input ''/secret/c.pdf'' ''Appendix B'' 2)) \<in> set (stat_denied guarded_fs)"
    by (simp add: guarded_fs_def demo_input_def)
  note t2 = validate_appendices_entries [of ?d guarded_fs None demo_pf, THEN conjunct2]
  from t2 [rule_format, OF conjI [OF s conjI [OF p q]]]
  have 2: "fst (validate_appendices None demo_pf ?d guarded_fs) = Inl (os_error ''OSError'' ''/secret/c.pdf'')"
    by (simp add: demo_input_def)
  have e: "stat_denied demo_fs = []" by (simp add: demo_fs_def)
  from e c f 1 g 2 show ?thesis by (intro conjI)
qed

section \<open>Cleaning up temporary files\<close>

lemma remove_each_Cons:
  "remove_each msg (t # rest) fsys =
     (case remove_step t fsys of
        Inr fs1 \<Rightarrow> remove_each msg rest fs1
      | Inl e \<Rightarrow>
          (case remove_each msg rest fsys of
             (fs2, lg) \<Rightarrow> (fs2, (WARNING, msg, [ArgStr t, ArgExc e]) # lg)))"
  by (simp add: remove_step_def)

lemma remove_step_Inr:
  "remove_step t fsys = Inr f1 \<Longrightarrow>
     present f1 = removeAll t (present fsys) \<and> denied f1 = denied fsys
     \<and> stat_denied f1 = stat_denied fsys"
  by (auto simp: remove_step_def exists_call_def unlink_def path_exists_def
           split: if_splits sum.splits bool.splits)

lemma remove_step_Inl:
  "remove_step t fsys = Inl e \<Longrightarrow> t \<in> set (stat_denied fsys) \<or> t \<in> set (denied fsys)"
  by (auto simp: remove_step_def exists_call_def unlink_def path_exists_def
           split: if_splits sum.splits bool.splits)

lemma remove_each_frame:
  "remove_each msg ps fsys = (fs1, lg) \<Longrightarrow>
     denied fs1 = denied fsys \<and> stat_denied fs1 = stat_denied fsys
     \<and> set (present fs1) \<subseteq> set (present fsys)"
proof (induction ps arbitrary: fsys fs1 lg)
  case Nil
  then show ?case by simp
next
  case (Cons p ps)
  show ?case
  proof (cases "remove_step p fsys")
    case (Inl e)
    with Cons.prems obtain lg' where "remove_each msg ps fsys = (fs1, lg')"
      by (auto simp: remove_each_Cons simp del: remove_each.simps split: prod.splits)
    from Cons.IH [OF this] show ?thesis .
  next
    case (Inr f)
    with Cons.prems have "remove_each msg ps f = (fs1, lg)"
      by (simp add: remove_each_Cons del: remove_each.simps)
    from Cons.IH [OF this] remove_step_Inr [OF Inr] show ?thesis by auto
  qed
qed

lemma remove_each_removed:
  "remove_each msg ps fsys = (fs1, lg) \<Longrightarrow> p \<in> set ps \<Longrightarrow> p \<notin> set (denied fsys)
    \<Longrightarrow> p \<notin> set (stat_denied fsys) \<Longrightarrow> \<not> path_exists p fs1"
proof (induction ps arbitrary: fsys fs1 lg)
  case Nil
  then show ?case by simp
next
  case (Cons q ps)
  show ?case
  proof (cases "remove_step q fsys")
    case (Inl e)
    with Cons.prems obtain lg' where r: "remove_each msg ps fsys = (fs1, lg')"
      by (auto simp: remove_each_Cons simp del: remove_each.simps split: prod.splits)
    from remove_step_Inl [OF Inl] Cons.prems(3,4) have "p \<noteq> q" by auto
    with Cons.prems have "p \<in> set ps" by simp
    from Cons.IH [OF r this Cons.prems(3,4)] show ?thesis .
  next
    case (Inr f)
    with Cons.prems have r: "remove_each msg ps f = (fs1, lg)"
      by (simp add: remove_each_Cons del: remove_each.simps)
    note u = remove_step_Inr [OF Inr]
    show ?thesis
    proof (cases "p = q")
      case True
      with u have "p \<notin> set (present f)" by simp
      with remove_each_frame [OF r] show ?thesis by (auto simp: path_exists_def)
    next
      case False
      with Cons.prems have "p \<in> set ps" by simp
      moreover from u Cons.prems(3,4) have "p \<notin> set (denied f)" "p \<notin> set (stat_denied f)"
        by simp_all
      ultimately show ?thesis using Cons.IH [OF r] by blast
    qed
  qed
qed

lemma remove_each_logged:
  "remove_each msg ps fsys = (fs1, lg) \<Longrightarrow> p \<in> set ps \<Longrightarrow> path_exists p fs1
    \<Longrightarrow> \<exists>e. (WARNING, msg, [ArgStr p, ArgExc e]) \<in> set lg"
proof (induction ps arbitrary: fsys fs1 lg)
  case Nil
  then show ?case by simp
next
  case (Cons q ps)
  show ?case
  proof (cases "remove_step q fsys")
    case (Inl e)
    with Cons.prems obtain lg' where r: "remove_each msg ps fsys = (fs1, lg')"
      and lg: "lg = (WARNING, msg, [ArgStr q, ArgExc e]) # lg'"
      by (auto simp: remove_each_Cons simp del: remove_each.simps split: prod.splits)
    show ?thesis
    proof (cases "p = q")
      case True
      with lg show ?thesis by auto
    next
      case False
      with Cons.prems have "p \<in> set ps" by simp
      from Cons.IH [OF r this Cons.prems(3)] lg show ?thesis by auto
    qed
  next
    case (Inr f)
    with Cons.prems have r: "remove_each msg ps f = (fs1, lg)"
      by (simp add: remove_each_Cons del: remove_each.simps)
    from remove_step_Inr [OF Inr] remove_each_frame [OF r] Cons.prems(3) have "p \<noteq> q"
      by (auto simp: path_exists_def)
    with Cons.prems have "p \<in> set ps" by simp
    from Cons.IH [OF r this Cons.prems(3)] show ?thesis .
  qed
qed

lemma remove_each_kept:
  "remove_each msg ps fsys = (fs1, lg) \<Longrightarrow> p \<notin> set ps \<Longrightarrow> path_exists p fsys
    \<Longrightarrow> path_exists p fs1"
proof (induction ps arbitrary: fsys fs1 lg)
  case Nil
  then show ?case by simp
next
  case (Cons q ps)
  from Cons.prems(2) have pq: "p \<noteq> q" and pps: "p \<notin> set ps" by auto
  show ?case
  proof (cases "remove_step q fsys")
    case (Inl e)
    with Cons.prems obtain lg' where r: "remove_each msg ps fsys = (fs1, lg')"
      by (auto simp: remove_each_Cons simp del: remove_each.simps split: prod.splits)
    from Cons.IH [OF r pps Cons.prems(3)] show ?thesis .
  next
    case (Inr f)
    with Cons.prems have r: "remove_each msg ps f = (fs1, lg)"
      by (simp add: remove_each_Cons del: remove_each.simps)
    from remove_step_Inr [OF Inr] pq Cons.prems(3) have "path_exists p f"
      by (simp add: path_exists_def)
    from Cons.IH [OF r pps this] show ?thesis .
  qed
qed

lemma rmtree_frame:
  "denied (rmtree_ignore_errors d fsys) = denied fsys
   \<and> stat_denied (rmtree_ignore_errors d fsys) = stat_denied fsys
   \<and> set (present (rmtree_ignore_errors d fsys)) \<subseteq> set (present fsys)"
  by (auto simp: rmtree_ignore_errors_def)

lemma rmtree_removed:
  "\<not> blocked fsys d \<Longrightarrow> \<not> path_exists d (rmtree_ignore_errors d fsys)"
  by (auto simp: rmtree_ignore_errors_def path_exists_def)

lemma rmtree_kept:
  "path_exists p fsys \<Longrightarrow> p \<noteq> d \<Longrightarrow> \<not> is_under d p
    \<Longrightarrow> path_exists p (rmtree_ignore_errors d fsys)"
  by (auto simp: rmtree_ignore_errors_def path_exists_def)

lemma blocked_mono:
  "blocked f1 d \<Longrightarrow> denied f1 = denied f0 \<Longrightarrow> set (present f1) \<subseteq> set (present f0) \<Longrightarrow> blocked f0 d"
  by (auto simp: blocked_def)

text \<open>The three ways through the handler, after the coordinator's own loop.\<close>

lemma cleanup_temp_files_unfold:
  assumes "cleanup_temp_files s = (r, s', lg)"
  obtains fs1 lg1 fs2 lg2 fs3 lg3 where
    "remove_each ''Could not delete temp file {}: {}'' (temp_files s) (fs s) = (fs1, lg1)"
    "remove_each ''Could not remove temp file {}: {}'' (ph_temp_files s) fs1 = (fs2, lg2)"
    "r = Inr ()"
    "lg = lg1 @ (lg2 @ lg3) @ [(INFO, ''Cleaned up temporary files'', [])]"
    "(\<not> falsy (ph_temp_dir s) \<and> the (ph_temp_dir s) \<in> set (stat_denied fs2)
        \<and> fs3 = fs2
        \<and> s' = s\<lparr>temp_files := [], fs := fs2\<rparr>
        \<and> lg3 = [(ERROR, ''Error during temp file cleanup: {}'',
                   [ArgExc (os_error ''OSError'' (the (ph_temp_dir s)))])])
     \<or> ((falsy (ph_temp_dir s) \<or> the (ph_temp_dir s) \<notin> set (stat_denied fs2))
        \<and> (if \<not> falsy (ph_temp_dir s) \<and> path_exists (the (ph_temp_dir s)) fs2
            then fs3 = rmtree_ignore_errors (the (ph_temp_dir s)) fs2 else fs3 = fs2)
        \<and> s' = s\<lparr>temp_files := [], ph_temp_files := [], ph_temp_dir := None, fs := fs3\<rparr>)"
proof -
  obtain fs1 lg1 where a: "remove_each ''Could not delete temp file {}: {}'' (temp_files s) (fs s) = (fs1, lg1)"
    by (cases "remove_each ''Could not delete temp file {}: {}'' (temp_files s) (fs s)") auto
  obtain fs2 lg2 where b: "remove_each ''Could not remove temp file {}: {}'' (ph_temp_files s) fs1 = (fs2, lg2)"
    by (cases "remove_each ''Could not remove temp file {}: {}'' (ph_temp_files s) fs1") auto
  let ?t = "if falsy (ph_temp_dir s) then Inr False else exists_call (the (ph_temp_dir s)) fs2"
  consider (raise) "\<not> falsy (ph_temp_dir s)" "the (ph_temp_dir s) \<in> set (stat_denied fs2)"
    | (rm) "\<not> falsy (ph_temp_dir s)" "the (ph_temp_dir s) \<notin> set (stat_denied fs2)"
        "path_exists (the (ph_temp_dir s)) fs2"
    | (absent) "\<not> falsy (ph_temp_dir s)" "the (ph_temp_dir s) \<notin> set (stat_denied fs2)"
        "\<not> path_exists (the (ph_temp_dir s)) fs2"
    | (none) "falsy (ph_temp_dir s)"
    by blast
  then show ?thesis
  proof cases
    case raise
    then have t: "?t = Inl (os_error ''OSError'' (the (ph_temp_dir s)))"
      by (simp add: exists_call_def)
    with assms a b raise show ?thesis
      by (intro that [where ?fs1.0 = fs1 and ?lg1.0 = lg1 and ?fs2.0 = fs2 and ?lg2.0 = lg2
            and ?fs3.0 = fs2
            and ?lg3.0 = "[(ERROR, ''Error during temp file cleanup: {}'',
               [ArgExc (os_error ''OSError'' (the (ph_temp_dir s)))])]"])
         (simp_all add: cleanup_temp_files_def pdf_handler_cleanup_temp_files_def)
  next
    case rm
    then have t: "?t = Inr True" by (simp add: exists_call_def)
    with assms a b rm show ?thesis
      by (intro that [where ?fs1.0 = fs1 and ?lg1.0 = lg1 and ?fs2.0 = fs2 and ?lg2.0 = lg2
            and ?fs3.0 = "rmtree_ignore_errors (the (ph_temp_dir s)) fs2"
            and ?lg3.0 = "[(DEBUG, ''Cleaned up temp directory: {}'',
                            [ArgStr (the (ph_temp_dir s))])]"])
         (simp_all add: cleanup_temp_files_def pdf_handler_cleanup_temp_files_def)
  next
    case absent
    then have t: "?t = Inr False" by (simp add: exists_call_def)
    with assms a b absent show ?thesis
      by (intro that [where ?fs1.0 = fs1 and ?lg1.0 = lg1 and ?fs2.0 = fs2 and ?lg2.0 = lg2
            and ?fs3.0 = fs2 and ?lg3.0 = "[]"])
         (simp_all add: cleanup_temp_files_def pdf_handler_cleanup_temp_files_def)
  next
    case none
    then have t: "?t = Inr False" by simp
    with assms a b none show ?thesis
      by (intro that [where ?fs1.0 = fs1 and ?lg1.0 = lg1 and ?fs2.0 = fs2 and ?lg2.0 = lg2
            and ?fs3.0 = fs2 and ?lg3.0 = "[]"])
         (simp_all add: cleanup_temp_files_def pdf_handler_cleanup_temp_files_def)
  qed
qed

text \<open>
  C8 (as stated, refuted). When the deletion of a tracked file is refused, cleanup returns
  without raising, and the file, and the temporary directory that holds it, still exist.
\<close>

theorem cleanup_residual_counterexample:
  "''/tmp/w/word_document.pdf'' \<in> set (temp_files locked_state)
   \<and> fst (cleanup_temp_files locked_state) = Inr ()
   \<and> path_exists ''/tmp/w/word_document.pdf'' (fs (fst (snd (cleanup_temp_files locked_state))))
   \<and> path_exists ''/tmp/w'' (fs (fst (snd (cleanup_temp_files locked_state))))"
  by code_simp

text \<open>
  C8 (amended). \<open>cleanup_temp_files\<close> never raises and empties the coordinator's list.
  Where the existence test of the handler's temporary directory returns, the handler's list
  is emptied and its \<open>temp_dir\<close> is reset to \<open>None\<close>; where that test raises, the error
  is logged and both are left as they were. A tracked file whose test returns and whose
  deletion is not refused no longer exists, a tracked file that still exists has a logged
  warning, and the temporary directory no longer exists unless its test raises or the
  removal of it or of something below it is refused. Nothing outside the tracked files and
  the temporary directory is removed, and nothing is created.
\<close>

theorem cleanup_temp_files_result:
  assumes "cleanup_temp_files s = (r, s', lg)"
  shows "r = Inr ()
       \<and> temp_files s' = []
       \<and> appendices_added s' = appendices_added s \<and> document s' = document s
       \<and> (if \<not> falsy (ph_temp_dir s) \<and> the (ph_temp_dir s) \<in> set (stat_denied (fs s))
          then ph_temp_files s' = ph_temp_files s \<and> ph_temp_dir s' = ph_temp_dir s
               \<and> (ERROR, ''Error during temp file cleanup: {}'',
                    [ArgExc (os_error ''OSError'' (the (ph_temp_dir s)))]) \<in> set lg
          else ph_temp_files s' = [] \<and> ph_temp_dir s' = None)
       \<and> (\<forall>p \<in> set (temp_files s) \<union> set (ph_temp_files s).
            (p \<notin> set (denied (fs s)) \<and> p \<notin> set (stat_denied (fs s))
               \<longrightarrow> \<not> path_exists p (fs s'))
            \<and> (path_exists p (fs s') \<longrightarrow>
                 (\<exists>msg e. (WARNING, msg, [ArgStr p, ArgExc e]) \<in> set lg)))
       \<and> (\<forall>d. ph_temp_dir s = Some d \<and> d \<noteq> [] \<and> d \<notin> set (stat_denied (fs s))
               \<and> \<not> blocked (fs s) d
             \<longrightarrow> \<not> path_exists d (fs s'))
       \<and> (\<forall>p. path_exists p (fs s)
               \<and> p \<notin> set (temp_files s) \<union> set (ph_temp_files s)
               \<and> (\<forall>d. ph_temp_dir s = Some d \<longrightarrow> p \<noteq> d \<and> \<not> is_under d p)
             \<longrightarrow> path_exists p (fs s'))
       \<and> (\<forall>p. path_exists p (fs s') \<longrightarrow> path_exists p (fs s))"
proof -
  from assms obtain fs1 lg1 fs2 lg2 fs3 lg3 where
    a: "remove_each ''Could not delete temp file {}: {}'' (temp_files s) (fs s) = (fs1, lg1)" and
    b: "remove_each ''Could not remove temp file {}: {}'' (ph_temp_files s) fs1 = (fs2, lg2)" and
    r: "r = Inr ()" and
    lg: "lg = lg1 @ (lg2 @ lg3) @ [(INFO, ''Cleaned up temporary files'', [])]" and
    c: "(\<not> falsy (ph_temp_dir s) \<and> the (ph_temp_dir s) \<in> set (stat_denied fs2)
        \<and> fs3 = fs2
        \<and> s' = s\<lparr>temp_files := [], fs := fs2\<rparr>
        \<and> lg3 = [(ERROR, ''Error during temp file cleanup: {}'',
                   [ArgExc (os_error ''OSError'' (the (ph_temp_dir s)))])])
     \<or> ((falsy (ph_temp_dir s) \<or> the (ph_temp_dir s) \<notin> set (stat_denied fs2))
        \<and> (if \<not> falsy (ph_temp_dir s) \<and> path_exists (the (ph_temp_dir s)) fs2
            then fs3 = rmtree_ignore_errors (the (ph_temp_dir s)) fs2 else fs3 = fs2)
        \<and> s' = s\<lparr>temp_files := [], ph_temp_files := [], ph_temp_dir := None, fs := fs3\<rparr>)"
    by (rule cleanup_temp_files_unfold)
  note fa = remove_each_frame [OF a] and fb = remove_each_frame [OF b]
  have sd: "stat_denied fs2 = stat_denied (fs s)" using fa fb by simp
  have dn: "denied fs2 = denied (fs s)" using fa fb by simp
  have fc: "set (present fs3) \<subseteq> set (present fs2)"
    using c rmtree_frame by (auto split: if_splits)
  have sub31: "set (present fs3) \<subseteq> set (present fs1)" using fb fc by blast
  have fs': "fs s' = fs3" using c by auto
  have 1: "temp_files s' = [] \<and> appendices_added s' = appendices_added s \<and> document s' = document s"
    using c by auto
  have 2: "if \<not> falsy (ph_temp_dir s) \<and> the (ph_temp_dir s) \<in> set (stat_denied (fs s))
          then ph_temp_files s' = ph_temp_files s \<and> ph_temp_dir s' = ph_temp_dir s
               \<and> (ERROR, ''Error during temp file cleanup: {}'',
                    [ArgExc (os_error ''OSError'' (the (ph_temp_dir s)))]) \<in> set lg
          else ph_temp_files s' = [] \<and> ph_temp_dir s' = None"
    using c sd lg by auto
  have files: "\<forall>p \<in> set (temp_files s) \<union> set (ph_temp_files s).
            (p \<notin> set (denied (fs s)) \<and> p \<notin> set (stat_denied (fs s))
               \<longrightarrow> \<not> path_exists p (fs s'))
            \<and> (path_exists p (fs s') \<longrightarrow>
                 (\<exists>msg e. (WARNING, msg, [ArgStr p, ArgExc e]) \<in> set lg))"
  proof
    fix p assume "p \<in> set (temp_files s) \<union> set (ph_temp_files s)"
    then consider (A) "p \<in> set (temp_files s)" | (B) "p \<in> set (ph_temp_files s)" by blast
    then show "(p \<notin> set (denied (fs s)) \<and> p \<notin> set (stat_denied (fs s))
               \<longrightarrow> \<not> path_exists p (fs s'))
            \<and> (path_exists p (fs s') \<longrightarrow>
                 (\<exists>msg e. (WARNING, msg, [ArgStr p, ArgExc e]) \<in> set lg))"
    proof cases
      case A
      have 1: "p \<notin> set (denied (fs s)) \<and> p \<notin> set (stat_denied (fs s))
                 \<longrightarrow> \<not> path_exists p (fs s')"
      proof
        assume "p \<notin> set (denied (fs s)) \<and> p \<notin> set (stat_denied (fs s))"
        then have "\<not> path_exists p fs1" using remove_each_removed [OF a A] by blast
        with sub31 fs' show "\<not> path_exists p (fs s')" by (auto simp: path_exists_def)
      qed
      have 2: "path_exists p (fs s') \<longrightarrow> (\<exists>msg e. (WARNING, msg, [ArgStr p, ArgExc e]) \<in> set lg)"
      proof
        assume "path_exists p (fs s')"
        with sub31 fs' have "path_exists p fs1" by (auto simp: path_exists_def)
        from remove_each_logged [OF a A this] lg
        show "\<exists>msg e. (WARNING, msg, [ArgStr p, ArgExc e]) \<in> set lg" by auto
      qed
      from 1 2 show ?thesis by blast
    next
      case B
      have 1: "p \<notin> set (denied (fs s)) \<and> p \<notin> set (stat_denied (fs s))
                 \<longrightarrow> \<not> path_exists p (fs s')"
      proof
        assume "p \<notin> set (denied (fs s)) \<and> p \<notin> set (stat_denied (fs s))"
        with fa have "p \<notin> set (denied fs1)" "p \<notin> set (stat_denied fs1)" by simp_all
        then have "\<not> path_exists p fs2" using remove_each_removed [OF b B] by blast
        with fc fs' show "\<not> path_exists p (fs s')" by (auto simp: path_exists_def)
      qed
      have 2: "path_exists p (fs s') \<longrightarrow> (\<exists>msg e. (WARNING, msg, [ArgStr p, ArgExc e]) \<in> set lg)"
      proof
        assume "path_exists p (fs s')"
        with fc fs' have "path_exists p fs2" by (auto simp: path_exists_def)
        from remove_each_logged [OF b B this] lg
        show "\<exists>msg e. (WARNING, msg, [ArgStr p, ArgExc e]) \<in> set lg" by auto
      qed
      from 1 2 show ?thesis by blast
    qed
  qed
  have dir: "\<forall>d. ph_temp_dir s = Some d \<and> d \<noteq> [] \<and> d \<notin> set (stat_denied (fs s))
               \<and> \<not> blocked (fs s) d
             \<longrightarrow> \<not> path_exists d (fs s')"
  proof (intro allI impI, elim conjE)
    fix d assume d: "ph_temp_dir s = Some d" "d \<noteq> []" "d \<notin> set (stat_denied (fs s))"
      "\<not> blocked (fs s) d"
    have "\<not> blocked fs2 d"
    proof
      assume "blocked fs2 d"
      then have "blocked (fs s) d"
        using fa fb by (intro blocked_mono [of fs2 d "fs s"]) auto
      with d(4) show False by simp
    qed
    with c d(1,2,3) sd rmtree_removed [of fs2 d] fs'
    show "\<not> path_exists d (fs s')" by (auto split: if_splits)
  qed
  have kept: "\<forall>p. path_exists p (fs s)
               \<and> p \<notin> set (temp_files s) \<union> set (ph_temp_files s)
               \<and> (\<forall>d. ph_temp_dir s = Some d \<longrightarrow> p \<noteq> d \<and> \<not> is_under d p)
             \<longrightarrow> path_exists p (fs s')"
  proof (intro allI impI, elim conjE)
    fix p assume p: "path_exists p (fs s)" "p \<notin> set (temp_files s) \<union> set (ph_temp_files s)"
      "\<forall>d. ph_temp_dir s = Some d \<longrightarrow> p \<noteq> d \<and> \<not> is_under d p"
    from remove_each_kept [OF a _ p(1)] p(2) have "path_exists p fs1" by simp
    from remove_each_kept [OF b _ this] p(2) have p2: "path_exists p fs2" by simp
    show "path_exists p (fs s')"
    proof (cases "fs3 = fs2")
      case True
      with p2 fs' show ?thesis by simp
    next
      case False
      with c have f3: "fs3 = rmtree_ignore_errors (the (ph_temp_dir s)) fs2"
        and nf: "\<not> falsy (ph_temp_dir s)" by (auto split: if_splits)
      from nf obtain d where d: "ph_temp_dir s = Some d" by (cases "ph_temp_dir s") auto
      with p(3) have "p \<noteq> d" "\<not> is_under d p" by auto
      from rmtree_kept [OF p2 this] f3 d fs' show ?thesis by simp
    qed
  qed
  have shrink: "\<forall>p. path_exists p (fs s') \<longrightarrow> path_exists p (fs s)"
    using fa sub31 fs' by (auto simp: path_exists_def)
  from r 1 2 files dir kept shrink show ?thesis by (intro conjI) simp_all
qed

theorem cleanup_temp_files_result_witness:
  "''/tmp/w/word_document.pdf'' \<in> set (temp_files unlocked_state)
   \<and> ''/tmp/w/word_document.pdf'' \<notin> set (denied (fs unlocked_state))
   \<and> ''/tmp/w/word_document.pdf'' \<notin> set (stat_denied (fs unlocked_state))
   \<and> ph_temp_dir unlocked_state = Some ''/tmp/w''
   \<and> ''/tmp/w'' \<notin> set (stat_denied (fs unlocked_state))
   \<and> \<not> blocked (fs unlocked_state) ''/tmp/w''
   \<and> \<not> path_exists ''/tmp/w/word_document.pdf'' (fs (fst (snd (cleanup_temp_files unlocked_state))))
   \<and> \<not> path_exists ''/tmp/w'' (fs (fst (snd (cleanup_temp_files unlocked_state))))
   \<and> path_exists ''/in/a.pdf'' (fs (fst (snd (cleanup_temp_files unlocked_state))))
   \<and> temp_files (fst (snd (cleanup_temp_files unlocked_state))) = []
   \<and> ph_temp_files (fst (snd (cleanup_temp_files unlocked_state))) = []
   \<and> ph_temp_dir (fst (snd (cleanup_temp_files unlocked_state))) = None
   \<and> ''/tmp/w'' \<in> set (stat_denied (fs unsearchable_state))
   \<and> fst (cleanup_temp_files unsearchable_state) = Inr ()
   \<and> ph_temp_dir (fst (snd (cleanup_temp_files unsearchable_state))) = Some ''/tmp/w''
   \<and> ph_temp_files (fst (snd (cleanup_temp_files unsearchable_state))) = [''/tmp/w/thumb.png'']"
proof -
  let ?c = "cleanup_temp_files unlocked_state"
  let ?u = "cleanup_temp_files unsearchable_state"
  have h: "?c = (fst ?c, fst (snd ?c), snd (snd ?c))" by simp
  have hu: "?u = (fst ?u, fst (snd ?u), snd (snd ?u))" by simp
  have 1: "''/tmp/w/word_document.pdf'' \<in> set (temp_files unlocked_state)" by code_simp
  have 2: "''/tmp/w/word_document.pdf'' \<notin> set (denied (fs unlocked_state))" by code_simp
  have k2: "''/tmp/w/word_document.pdf'' \<notin> set (stat_denied (fs unlocked_state))" by code_simp
  have 3: "ph_temp_dir unlocked_state = Some ''/tmp/w''" by code_simp
  have k3: "''/tmp/w'' \<notin> set (stat_denied (fs unlocked_state))" by code_simp
  have 4: "\<not> blocked (fs unlocked_state) ''/tmp/w''" by code_simp
  have 5: "''/tmp/w'' \<noteq> []" by simp
  have 6: "path_exists ''/in/a.pdf'' (fs unlocked_state)" by code_simp
  have 7: "''/in/a.pdf'' \<notin> set (temp_files unlocked_state) \<union> set (ph_temp_files unlocked_state)"
    by code_simp
  have 8: "\<forall>d. ph_temp_dir unlocked_state = Some d \<longrightarrow> ''/in/a.pdf'' \<noteq> d \<and> \<not> is_under d ''/in/a.pdf''"
    using 3 by (simp add: is_under_def)
  have 9: "\<not> falsy (ph_temp_dir unlocked_state)" using 3 by simp
  note t = cleanup_temp_files_result [OF h]
  from t 1 2 k2 have a: "\<not> path_exists ''/tmp/w/word_document.pdf'' (fs (fst (snd ?c)))" by blast
  from t 3 k3 4 5 have b: "\<not> path_exists ''/tmp/w'' (fs (fst (snd ?c)))" by blast
  from t 6 7 8 have c: "path_exists ''/in/a.pdf'' (fs (fst (snd ?c)))" by blast
  from t have d: "temp_files (fst (snd ?c)) = []" by blast
  from t 3 k3 have e: "ph_temp_files (fst (snd ?c)) = [] \<and> ph_temp_dir (fst (snd ?c)) = None"
    by simp
  have u1: "ph_temp_dir unsearchable_state = Some ''/tmp/w''" by code_simp
  have u2: "''/tmp/w'' \<in> set (stat_denied (fs unsearchable_state))" by code_simp
  have u3: "ph_temp_files unsearchable_state = [''/tmp/w/thumb.png'']" by code_simp
  note tu = cleanup_temp_files_result [OF hu]
  from tu have f: "fst ?u = Inr ()" by blast
  from tu u1 u2 u3 have g: "ph_temp_dir (fst (snd ?u)) = Some ''/tmp/w''
      \<and> ph_temp_files (fst (snd ?u)) = [''/tmp/w/thumb.png'']" by simp
  from 1 2 k2 3 k3 4 a b c d e u2 f g show ?thesis by (intro conjI) simp_all
qed

section \<open>Assembling the final PDF\<close>

lemma unique_output_path_spec:
  "\<not> path_exists (unique_output_path dir doc fsys p c) fsys
   \<and> (unique_output_path dir doc fsys p c = p
      \<or> (path_exists p fsys
         \<and> (\<exists>k\<ge>c. unique_output_path dir doc fsys p c = path_join dir (numbered_name doc k)
               \<and> (\<forall>j. c \<le> j \<and> j < k \<longrightarrow> path_exists (path_join dir (numbered_name doc j)) fsys))))"
proof (induction dir doc fsys p c rule: unique_output_path.induct)
  case (1 dir doc fsys p c)
  show ?case
  proof (cases "path_exists p fsys")
    case False
    then show ?thesis by (simp add: unique_output_path.simps [of dir doc fsys p c])
  next
    case True
    let ?q = "path_join dir (numbered_name doc c)"
    let ?r = "unique_output_path dir doc fsys ?q (c + 1)"
    have eq: "unique_output_path dir doc fsys p c = ?r"
      using True by (simp add: unique_output_path.simps [of dir doc fsys p c])
    from "1.IH" [OF True] have ne: "\<not> path_exists ?r fsys"
      and alt: "?r = ?q \<or> (path_exists ?q fsys
         \<and> (\<exists>k\<ge>c + 1. ?r = path_join dir (numbered_name doc k)
               \<and> (\<forall>j. c + 1 \<le> j \<and> j < k \<longrightarrow> path_exists (path_join dir (numbered_name doc j)) fsys)))"
      by auto
    have "\<exists>k\<ge>c. ?r = path_join dir (numbered_name doc k)
               \<and> (\<forall>j. c \<le> j \<and> j < k \<longrightarrow> path_exists (path_join dir (numbered_name doc j)) fsys)"
    proof (cases "?r = ?q")
      case True
      then show ?thesis by (intro exI [of _ c]) auto
    next
      case False
      with alt obtain k where k: "c + 1 \<le> k" "?r = path_join dir (numbered_name doc k)"
        "\<forall>j. c + 1 \<le> j \<and> j < k \<longrightarrow> path_exists (path_join dir (numbered_name doc j)) fsys"
        and q: "path_exists ?q fsys" by auto
      have "\<forall>j. c \<le> j \<and> j < k \<longrightarrow> path_exists (path_join dir (numbered_name doc j)) fsys"
      proof (intro allI impI)
        fix j assume j: "c \<le> j \<and> j < k"
        show "path_exists (path_join dir (numbered_name doc j)) fsys"
        proof (cases "j = c")
          case True
          with q show ?thesis by simp
        next
          case False
          with j have "c + 1 \<le> j \<and> j < k" by simp
          with k(3) show ?thesis by blast
        qed
      qed
      with k show ?thesis by (intro exI [of _ k]) simp
    qed
    with ne eq True show ?thesis by simp
  qed
qed

lemma replace_blank_pages_success:
  assumes "replace_blank_pages wm pf word_pdf output_path s = (Inr p, s', lg)"
  shows "p = (if falsy output_path then default_output_path wm pf s else the output_path)"
  using assms
  by (auto simp: replace_blank_pages_def replace_blank_pages_try_def Let_def
           split: sum.splits prod.splits if_splits)

lemma create_final_pdf_success:
  assumes "create_final_pdf wm sett pf output_path s = (Inr p, s', lg)"
  shows "\<exists>temp s1 lg1 s2 lg2.
           export_word_to_pdf wm sett pf s = (Inr temp, s1, lg1)
           \<and> replace_blank_pages wm pf temp output_path s1 = (Inr p, s2, lg2)"
  using assms
  by (auto simp: create_final_pdf_def create_final_pdf_try_def split: sum.splits prod.splits if_splits)

text \<open>
  C3 (as stated, refuted). The claim places the default output next to the source document.
  For a document at \<open>/work/report.docx\<close> and a home directory \<open>/home/user\<close>,
  \<open>create_final_pdf\<close> without an output path writes to \<open>/home/user/Documents\<close>.
\<close>

theorem default_output_path_counterexample:
  "di_path (wm_get_document_info demo_wm (document demo_state)) = Some ''/work/report.docx''
   \<and> path_parent ''/work/report.docx'' = ''/work''
   \<and> fst (create_final_pdf demo_wm None demo_pf None demo_state)
       = Inr ''/home/user/Documents/report_with_appendices.pdf''
   \<and> path_parent ''/home/user/Documents/report_with_appendices.pdf'' = ''/home/user/Documents''"
  by code_simp

text \<open>
  C3 (amended). Without an explicit output path the output is written to the
  \<open>Documents\<close> directory of the user's home, under the name
  \<open><name>_with_appendices.pdf\<close> if no such file exists there, and otherwise under
  \<open><name>_with_appendices_<k>.pdf\<close> for the least \<open>k \<ge> 1\<close> whose file does not exist;
  the path chosen never names an existing file. It is the path \<open>_replace_blank_pages\<close>
  and \<open>create_final_pdf\<close> return.
\<close>

theorem default_output_path_unique:
  "(let output_dir = path_join (home pf) ''Documents'';
        doc_name = path_stem (case di_name (wm_get_document_info wm (document s)) of
                                None \<Rightarrow> ''document'' | Some n \<Rightarrow> n);
        out = default_output_path wm pf s
    in \<not> path_exists out (fs s)
       \<and> (out = path_join output_dir (doc_name @ ''_with_appendices.pdf'')
          \<or> (path_exists (path_join output_dir (doc_name @ ''_with_appendices.pdf'')) (fs s)
             \<and> (\<exists>k\<ge>1. out = path_join output_dir
                                (doc_name @ ''_with_appendices_'' @ str_nat k @ ''.pdf'')
                   \<and> (\<forall>j. 1 \<le> j \<and> j < k \<longrightarrow>
                          path_exists (path_join output_dir
                             (doc_name @ ''_with_appendices_'' @ str_nat j @ ''.pdf'')) (fs s))))))
   \<and> (\<forall>word_pdf output_path p s' lg.
         falsy output_path
         \<and> replace_blank_pages wm pf word_pdf output_path s = (Inr p, s', lg)
         \<longrightarrow> p = default_output_path wm pf s)
   \<and> (\<forall>sett output_path p s' lg.
         falsy output_path \<and> create_final_pdf wm sett pf output_path s = (Inr p, s', lg)
         \<longrightarrow> (\<exists>temp s1 lg1. export_word_to_pdf wm sett pf s = (Inr temp, s1, lg1)
                 \<and> p = default_output_path wm pf s1))"
proof (intro conjI)
  show "let output_dir = path_join (home pf) ''Documents'';
        doc_name = path_stem (case di_name (wm_get_document_info wm (document s)) of
                                None \<Rightarrow> ''document'' | Some n \<Rightarrow> n);
        out = default_output_path wm pf s
    in \<not> path_exists out (fs s)
       \<and> (out = path_join output_dir (doc_name @ ''_with_appendices.pdf'')
          \<or> (path_exists (path_join output_dir (doc_name @ ''_with_appendices.pdf'')) (fs s)
             \<and> (\<exists>k\<ge>1. out = path_join output_dir
                                (doc_name @ ''_with_appendices_'' @ str_nat k @ ''.pdf'')
                   \<and> (\<forall>j. 1 \<le> j \<and> j < k \<longrightarrow>
                          path_exists (path_join output_dir
                             (doc_name @ ''_with_appendices_'' @ str_nat j @ ''.pdf'')) (fs s)))))"
    using unique_output_path_spec [of "path_join (home pf) ''Documents''"
        "path_stem (case di_name (wm_get_document_info wm (document s)) of
                                None \<Rightarrow> ''document'' | Some n \<Rightarrow> n)" "fs s"
        "path_join (path_join (home pf) ''Documents'')
           (path_stem (case di_name (wm_get_document_info wm (document s)) of
                                None \<Rightarrow> ''document'' | Some n \<Rightarrow> n) @ ''_with_appendices.pdf'')" 1]
    unfolding default_output_path_def Let_def numbered_name_def by simp
next
  show "\<forall>word_pdf output_path p s' lg.
         falsy output_path
         \<and> replace_blank_pages wm pf word_pdf output_path s = (Inr p, s', lg)
         \<longrightarrow> p = default_output_path wm pf s"
    using replace_blank_pages_success by fastforce
next
  show "\<forall>sett output_path p s' lg.
         falsy output_path \<and> create_final_pdf wm sett pf output_path s = (Inr p, s', lg)
         \<longrightarrow> (\<exists>temp s1 lg1. export_word_to_pdf wm sett pf s = (Inr temp, s1, lg1)
                 \<and> p = default_output_path wm pf s1)"
  proof (intro allI impI, elim conjE)
    fix sett output_path p s' lg
    assume f: "falsy output_path" and c: "create_final_pdf wm sett pf output_path s = (Inr p, s', lg)"
    from create_final_pdf_success [OF c] obtain temp s1 lg1 s2 lg2 where
      e: "export_word_to_pdf wm sett pf s = (Inr temp, s1, lg1)" and
      r: "replace_blank_pages wm pf temp output_path s1 = (Inr p, s2, lg2)" by blast
    from replace_blank_pages_success [OF r] f have "p = default_output_path wm pf s1" by simp
    with e show "\<exists>temp s1 lg1. export_word_to_pdf wm sett pf s = (Inr temp, s1, lg1)
                 \<and> p = default_output_path wm pf s1" by blast
  qed
qed

theorem default_output_path_unique_witness:
  "falsy None
   \<and> path_exists ''/home/user/Documents/report_with_appendices.pdf'' (fs exported_state)
   \<and> path_exists ''/home/user/Documents/report_with_appendices_1.pdf'' (fs exported_state)
   \<and> default_output_path demo_wm demo_pf exported_state
       = ''/home/user/Documents/report_with_appendices_2.pdf''
   \<and> \<not> path_exists ''/home/user/Documents/report_with_appendices_2.pdf'' (fs exported_state)
   \<and> fst (replace_blank_pages demo_wm demo_pf ''/tmp/w/word_document.pdf'' None exported_state)
       = Inr ''/home/user/Documents/report_with_appendices_2.pdf''"
proof -
  let ?r = "replace_blank_pages demo_wm demo_pf ''/tmp/w/word_document.pdf'' None exported_state"
  have d: "default_output_path demo_wm demo_pf exported_state
       = ''/home/user/Documents/report_with_appendices_2.pdf''" by code_simp
  have e: "path_exists ''/home/user/Documents/report_with_appendices.pdf'' (fs exported_state)
   \<and> path_exists ''/home/user/Documents/report_with_appendices_1.pdf'' (fs exported_state)"
    by code_simp
  have p: "fst ?r = Inr ''/home/user/Documents/report_with_appendices_2.pdf''" by code_simp
  then have h: "?r = (Inr ''/home/user/Documents/report_with_appendices_2.pdf'', fst (snd ?r), snd (snd ?r))"
    by (metis prod.collapse)
  have f: "falsy None" by simp
  from default_output_path_unique [of demo_pf demo_wm exported_state] d
  have n: "\<not> path_exists ''/home/user/Documents/report_with_appendices_2.pdf'' (fs exported_state)"
    by (simp add: Let_def)
  note c2 = default_output_path_unique [of demo_pf demo_wm exported_state, THEN conjunct2, THEN conjunct1]
  from c2 [rule_format, OF conjI [OF f h]]
  have q: "''/home/user/Documents/report_with_appendices_2.pdf''
             = default_output_path demo_wm demo_pf exported_state" .
  from e q [symmetric] n f p show ?thesis by (intro conjI) simp_all
qed

lemma merge_pdfs_written:
  "merge_pdfs pf l out f = (Inr b, f2, lg) \<Longrightarrow> path_exists out f2"
  by (auto simp: merge_pdfs_def merge_pdfs_pypdf_def merge_pdfs_pymupdf_def
           dest: create_file_exists split: if_splits option.splits sum.splits)

lemma copy2_written: "copy2 src out f = Inr f1 \<Longrightarrow> path_exists out f1"
  by (auto simp: copy2_def dest: create_file_exists split: if_splits)

lemma replace_blank_pages_written:
  assumes "replace_blank_pages wm pf word_pdf output_path s = (Inr p, s2, lg)"
  shows "path_exists p (fs s2)"
proof -
  let ?out = "if falsy output_path then default_output_path wm pf s else the output_path"
  from assms obtain fs1 where c: "copy2 word_pdf ?out (fs s) = Inr fs1"
    by (cases "copy2 word_pdf ?out (fs s)")
       (auto simp: replace_blank_pages_def replace_blank_pages_try_def Let_def)
  show ?thesis
  proof (cases "appendices_added s = []")
    case True
    with assms c copy2_written [OF c] show ?thesis
      by (auto simp: replace_blank_pages_def replace_blank_pages_try_def Let_def)
  next
    case False
    obtain r fs2 l2 where m: "merge_pdfs pf ([word_pdf] @ map ai_pdf_path (appendices_added s)) ?out fs1
        = (r, fs2, l2)"
      by (cases "merge_pdfs pf ([word_pdf] @ map ai_pdf_path (appendices_added s)) ?out fs1") auto
    with assms c False obtain b where "r = Inr b" "p = ?out" "s2 = s\<lparr>fs := fs2\<rparr>"
      by (cases r) (auto simp: replace_blank_pages_def replace_blank_pages_try_def Let_def)
    with m merge_pdfs_written show ?thesis by auto
  qed
qed

lemma create_final_pdf_export_fails:
  assumes "export_word_to_pdf wm sett pf s = (Inl e, s1, lg1)"
  shows "create_final_pdf wm sett pf output_path s
           = (Inl (Exn AppendixError ''Failed to create final PDF: {}'' [ArgExc e]), s1,
              lg1 @ [(ERROR, ''Failed to create final PDF: {}'', [ArgExc e])])"
  using assms by (simp add: create_final_pdf_def create_final_pdf_try_def)

lemma create_final_pdf_after_export:
  assumes "export_word_to_pdf wm sett pf s = (Inr temp, s1, lg1)"
    and "replace_blank_pages wm pf temp output_path s1 = (r, s2, lg2)"
  shows "create_final_pdf wm sett pf output_path s
           = (case r of
                Inl e \<Rightarrow>
                  (Inl (Exn AppendixError ''Failed to create final PDF: {}'' [ArgExc e]), s2,
                   lg1 @ lg2 @ [(ERROR, ''Failed to create final PDF: {}'', [ArgExc e])])
              | Inr p \<Rightarrow>
                  (case (if path_exists temp (fs s2) then unlink temp (fs s2) else Inr (fs s2)) of
                     Inl e \<Rightarrow>
                       (Inl (Exn AppendixError ''Failed to create final PDF: {}'' [ArgExc e]), s2,
                        lg1 @ lg2 @ [(ERROR, ''Failed to create final PDF: {}'', [ArgExc e])])
                   | Inr fs3 \<Rightarrow>
                       (Inr p, s2\<lparr>fs := fs3\<rparr>,
                        lg1 @ lg2 @ [(INFO, ''Created final PDF: {}'', [ArgStr p])])))"
  using assms
  by (simp add: create_final_pdf_def create_final_pdf_try_def split: sum.splits)

lemma create_final_pdf_effect:
  assumes e: "export_word_to_pdf wm sett pf s = (Inr temp, s1, lg1)"
    and c: "create_final_pdf wm sett pf output_path s = (Inr p, s', lg')"
  shows "\<not> path_exists temp (fs s') \<and> (p \<noteq> temp \<longrightarrow> path_exists p (fs s'))
         \<and> (INFO, ''Created final PDF: {}'', [ArgStr p]) \<in> set lg'"
proof -
  obtain r s2 lg2 where rp: "replace_blank_pages wm pf temp output_path s1 = (r, s2, lg2)"
    by (cases "replace_blank_pages wm pf temp output_path s1") auto
  note eq = create_final_pdf_after_export [OF e rp, of ]
  from eq c obtain q where r: "r = Inr q" by (cases r) auto
  from replace_blank_pages_written rp r have w: "path_exists q (fs s2)" by blast
  show ?thesis
  proof (cases "path_exists temp (fs s2)")
    case True
    with eq c r obtain fs3 where u: "unlink temp (fs s2) = Inr fs3" and
      s': "s' = s2\<lparr>fs := fs3\<rparr>" and p: "p = q"
      and lg: "lg' = lg1 @ lg2 @ [(INFO, ''Created final PDF: {}'', [ArgStr q])]"
      by (cases "unlink temp (fs s2)") auto
    from u have "present fs3 = removeAll temp (present (fs s2))"
      by (auto simp: unlink_def split: if_splits)
    with w s' p lg show ?thesis by (auto simp: path_exists_def)
  next
    case False
    with eq c r have "s' = s2" "p = q" "lg' = lg1 @ lg2 @ [(INFO, ''Created final PDF: {}'', [ArgStr q])]"
      by auto
    with w False show ?thesis by auto
  qed
qed


lemma export_word_to_pdf_success:
  assumes "export_word_to_pdf wm sett pf s = (Inr temp, s1, lg1)"
  shows "path_exists temp (fs s1) \<and> temp_files s1 = temp_files s @ [temp]
         \<and> appendices_added s1 = appendices_added s"
  using assms
  by (auto simp: export_word_to_pdf_def create_temp_directory_def Let_def
           split: sum.splits prod.splits if_splits)

text \<open>
  C5. \<open>create_final_pdf\<close> exports the document and calls \<open>_replace_blank_pages\<close> on the
  exported PDF, which first copies the exported PDF to the output path. With no appendix
  added nothing else is written. With at least one appendix added it then calls
  \<open>merge_pdfs\<close> on the exported PDF followed by the source paths of the added appendices
  in insertion order, with the same output path: the appendices come after the whole
  exported document. The result, the state and the log of \<open>create_final_pdf\<close> are those
  of these steps followed by the removal of the exported PDF; after a successful run the
  output file exists and the exported PDF does not.
\<close>

theorem final_pdf_assembly:
  assumes "out = (if falsy output_path then default_output_path wm pf s else the output_path)"
  shows "(\<forall>e. copy2 word_pdf out (fs s) = Inl e \<longrightarrow>
            replace_blank_pages wm pf word_pdf output_path s
              = (Inl (Exn PDFError ''Failed to replace blank pages: {}'' [ArgExc e]), s, []))
       \<and> (\<forall>fs1. copy2 word_pdf out (fs s) = Inr fs1 \<and> appendices_added s = [] \<longrightarrow>
            replace_blank_pages wm pf word_pdf output_path s = (Inr out, s\<lparr>fs := fs1\<rparr>, []))
       \<and> (\<forall>fs1 r fs2 lg.
            copy2 word_pdf out (fs s) = Inr fs1 \<and> appendices_added s \<noteq> []
            \<and> merge_pdfs pf (word_pdf # map ai_pdf_path (appendices_added s)) out fs1 = (r, fs2, lg)
            \<longrightarrow> path_exists out fs1
              \<and> replace_blank_pages wm pf word_pdf output_path s
                  = ((case r of
                        Inr ok \<Rightarrow> Inr out
                      | Inl e \<Rightarrow> Inl (Exn PDFError ''Failed to replace blank pages: {}'' [ArgExc e])),
                     s\<lparr>fs := fs2\<rparr>, lg))
       \<and> (\<forall>sett p s' lg'. create_final_pdf wm sett pf output_path s = (Inr p, s', lg') \<longrightarrow>
            (\<exists>temp s1 lg1 s2 lg2.
               export_word_to_pdf wm sett pf s = (Inr temp, s1, lg1)
               \<and> replace_blank_pages wm pf temp output_path s1 = (Inr p, s2, lg2)))
       \<and> (\<forall>sett e s1 lg1. export_word_to_pdf wm sett pf s = (Inl e, s1, lg1) \<longrightarrow>
            create_final_pdf wm sett pf output_path s
              = (Inl (Exn AppendixError ''Failed to create final PDF: {}'' [ArgExc e]), s1,
                 lg1 @ [(ERROR, ''Failed to create final PDF: {}'', [ArgExc e])]))
       \<and> (\<forall>sett temp s1 lg1 r s2 lg2.
            export_word_to_pdf wm sett pf s = (Inr temp, s1, lg1)
            \<and> replace_blank_pages wm pf temp output_path s1 = (r, s2, lg2)
            \<longrightarrow> path_exists temp (fs s1) \<and> temp_files s1 = temp_files s @ [temp]
              \<and> appendices_added s1 = appendices_added s
              \<and> create_final_pdf wm sett pf output_path s
                  = (case r of
                       Inl e \<Rightarrow>
                         (Inl (Exn AppendixError ''Failed to create final PDF: {}'' [ArgExc e]), s2,
                          lg1 @ lg2 @ [(ERROR, ''Failed to create final PDF: {}'', [ArgExc e])])
                     | Inr p \<Rightarrow>
                         (case (if path_exists temp (fs s2) then unlink temp (fs s2)
                                else Inr (fs s2)) of
                            Inl e \<Rightarrow>
                              (Inl (Exn AppendixError ''Failed to create final PDF: {}'' [ArgExc e]),
                               s2,
                               lg1 @ lg2 @ [(ERROR, ''Failed to create final PDF: {}'', [ArgExc e])])
                          | Inr fs3 \<Rightarrow>
                              (Inr p, s2\<lparr>fs := fs3\<rparr>,
                               lg1 @ lg2 @ [(INFO, ''Created final PDF: {}'', [ArgStr p])]))))
       \<and> (\<forall>sett temp s1 lg1 p s' lg'.
            export_word_to_pdf wm sett pf s = (Inr temp, s1, lg1)
            \<and> create_final_pdf wm sett pf output_path s = (Inr p, s', lg')
            \<longrightarrow> \<not> path_exists temp (fs s') \<and> (p \<noteq> temp \<longrightarrow> path_exists p (fs s'))
              \<and> (INFO, ''Created final PDF: {}'', [ArgStr p]) \<in> set lg')"
proof (intro conjI allI impI)
  fix e assume "copy2 word_pdf out (fs s) = Inl e"
  with assms show "replace_blank_pages wm pf word_pdf output_path s
              = (Inl (Exn PDFError ''Failed to replace blank pages: {}'' [ArgExc e]), s, [])"
    by (simp add: replace_blank_pages_def replace_blank_pages_try_def Let_def)
next
  fix fs1 assume "copy2 word_pdf out (fs s) = Inr fs1 \<and> appendices_added s = []"
  with assms show "replace_blank_pages wm pf word_pdf output_path s = (Inr out, s\<lparr>fs := fs1\<rparr>, [])"
    by (simp add: replace_blank_pages_def replace_blank_pages_try_def Let_def)
next
  fix fs1 r fs2 lg
  assume a: "copy2 word_pdf out (fs s) = Inr fs1 \<and> appendices_added s \<noteq> []
            \<and> merge_pdfs pf (word_pdf # map ai_pdf_path (appendices_added s)) out fs1 = (r, fs2, lg)"
  then show "path_exists out fs1" using copy2_written by blast
  from a assms show "replace_blank_pages wm pf word_pdf output_path s
                  = ((case r of
                        Inr ok \<Rightarrow> Inr out
                      | Inl e \<Rightarrow> Inl (Exn PDFError ''Failed to replace blank pages: {}'' [ArgExc e])),
                     s\<lparr>fs := fs2\<rparr>, lg)"
    by (cases r) (simp_all add: replace_blank_pages_def replace_blank_pages_try_def Let_def)
next
  fix sett p s' lg'
  assume "create_final_pdf wm sett pf output_path s = (Inr p, s', lg')"
  from create_final_pdf_success [OF this]
  show "\<exists>temp s1 lg1 s2 lg2.
               export_word_to_pdf wm sett pf s = (Inr temp, s1, lg1)
               \<and> replace_blank_pages wm pf temp output_path s1 = (Inr p, s2, lg2)" .
next
  fix sett e s1 lg1
  assume "export_word_to_pdf wm sett pf s = (Inl e, s1, lg1)"
  then show "create_final_pdf wm sett pf output_path s
              = (Inl (Exn AppendixError ''Failed to create final PDF: {}'' [ArgExc e]), s1,
                 lg1 @ [(ERROR, ''Failed to create final PDF: {}'', [ArgExc e])])"
    by (rule create_final_pdf_export_fails)
next
  fix sett temp s1 lg1 r s2 lg2
  assume a: "export_word_to_pdf wm sett pf s = (Inr temp, s1, lg1)
            \<and> replace_blank_pages wm pf temp output_path s1 = (r, s2, lg2)"
  from a export_word_to_pdf_success show "path_exists temp (fs s1)" by blast
  from a export_word_to_pdf_success show "temp_files s1 = temp_files s @ [temp]" by blast
  from a export_word_to_pdf_success show "appendices_added s1 = appendices_added s" by blast
  from a show "create_final_pdf wm sett pf output_path s
                  = (case r of
                       Inl e \<Rightarrow>
                         (Inl (Exn AppendixError ''Failed to create final PDF: {}'' [ArgExc e]), s2,
                          lg1 @ lg2 @ [(ERROR, ''Failed to create final PDF: {}'', [ArgExc e])])
                     | Inr p \<Rightarrow>
                         (case (if path_exists temp (fs s2) then unlink temp (fs s2)
                                else Inr (fs s2)) of
                            Inl e \<Rightarrow>
                              (Inl (Exn AppendixError ''Failed to create final PDF: {}'' [ArgExc e]),
                               s2,
                               lg1 @ lg2 @ [(ERROR, ''Failed to create final PDF: {}'', [ArgExc e])])
                          | Inr fs3 \<Rightarrow>
                              (Inr p, s2\<lparr>fs := fs3\<rparr>,
                               lg1 @ lg2 @ [(INFO, ''Created final PDF: {}'', [ArgStr p])])))"
    using create_final_pdf_after_export by blast
next
  fix sett temp s1 lg1 p s' lg'
  assume a: "export_word_to_pdf wm sett pf s = (Inr temp, s1, lg1)
            \<and> create_final_pdf wm sett pf output_path s = (Inr p, s', lg')"
  from a create_final_pdf_effect [of wm sett pf s temp s1 lg1 output_path p s' lg']
  show "\<not> path_exists temp (fs s')" by blast
  from a create_final_pdf_effect [of wm sett pf s temp s1 lg1 output_path p s' lg']
  show "path_exists p (fs s')" if "p \<noteq> temp" using that by blast
  from a create_final_pdf_effect [of wm sett pf s temp s1 lg1 output_path p s' lg']
  show "(INFO, ''Created final PDF: {}'', [ArgStr p]) \<in> set lg'" by blast
qed

theorem final_pdf_assembly_witness:
  "''/out/final.pdf'' = (if falsy (Some ''/out/final.pdf'') then default_output_path demo_wm demo_pf exported_state
                         else the (Some ''/out/final.pdf''))
   \<and> appendices_added exported_state \<noteq> []
   \<and> fst (merge_pdfs demo_pf [''/tmp/w/word_document.pdf'', ''/in/a.pdf'', ''/in/b.pdf''] ''/out/final.pdf''
            (projr (copy2 ''/tmp/w/word_document.pdf'' ''/out/final.pdf'' (fs exported_state)))) = Inr True
   \<and> fst (replace_blank_pages demo_wm demo_pf ''/tmp/w/word_document.pdf'' (Some ''/out/final.pdf'')
            exported_state) = Inr ''/out/final.pdf''
   \<and> fst (export_word_to_pdf demo_wm None demo_pf ready_state)
       = Inr ''/tmp/word_appendix_x1/word_document.pdf''
   \<and> fst (create_final_pdf demo_wm None demo_pf (Some ''/out/final.pdf'') ready_state)
       = Inr ''/out/final.pdf''
   \<and> present (fs (fst (snd (create_final_pdf demo_wm None demo_pf (Some ''/out/final.pdf'') ready_state))))
       = [''/out/final.pdf'', ''/tmp/word_appendix_x1'', ''/in/a.pdf'', ''/in/b.pdf'', ''/in/bad.pdf'']
   \<and> temp_files (fst (snd (create_final_pdf demo_wm None demo_pf (Some ''/out/final.pdf'') ready_state)))
       = [''/tmp/word_appendix_x1/word_document.pdf'']
   \<and> snd (snd (create_final_pdf demo_wm None demo_pf (Some ''/out/final.pdf'') ready_state))
       = [(DEBUG, ''Created temp directory: {}'', [ArgStr ''/tmp/word_appendix_x1'']),
          (INFO, ''Merged {} PDFs to {}'', [ArgInt 3, ArgStr ''/out/final.pdf'']),
          (INFO, ''Created final PDF: {}'', [ArgStr ''/out/final.pdf''])]
   \<and> \<not> path_exists ''/tmp/word_appendix_x1/word_document.pdf''
         (fs (fst (snd (create_final_pdf demo_wm None demo_pf (Some ''/out/final.pdf'') ready_state))))
   \<and> path_exists ''/out/final.pdf''
         (fs (fst (snd (create_final_pdf demo_wm None demo_pf (Some ''/out/final.pdf'') ready_state))))"
proof -
  let ?fs1 = "projr (copy2 ''/tmp/w/word_document.pdf'' ''/out/final.pdf'' (fs exported_state))"
  let ?l = "''/tmp/w/word_document.pdf'' # map ai_pdf_path (appendices_added exported_state)"
  let ?m = "merge_pdfs demo_pf ?l ''/out/final.pdf'' ?fs1"
  have o: "''/out/final.pdf'' = (if falsy (Some ''/out/final.pdf'')
              then default_output_path demo_wm demo_pf exported_state
              else the (Some ''/out/final.pdf''))" by simp
  have c: "copy2 ''/tmp/w/word_document.pdf'' ''/out/final.pdf'' (fs exported_state) = Inr ?fs1"
    by (simp add: copy2_def create_file_def exported_state_def demo_fs_def)
  have a: "appendices_added exported_state \<noteq> []" by (simp add: exported_state_def)
  have l: "?l = [''/tmp/w/word_document.pdf'', ''/in/a.pdf'', ''/in/b.pdf'']"
    by (simp add: exported_state_def)
  have m: "fst ?m = Inr True" by code_simp
  have h: "?m = (fst ?m, fst (snd ?m), snd (snd ?m))" by simp
  note c3 = final_pdf_assembly [OF o, where word_pdf = "''/tmp/w/word_document.pdf''",
      THEN conjunct2, THEN conjunct2, THEN conjunct1]
  from c3 [rule_format, OF conjI [OF c conjI [OF a h]]] m
  have r: "fst (replace_blank_pages demo_wm demo_pf ''/tmp/w/word_document.pdf'' (Some ''/out/final.pdf'')
            exported_state) = Inr ''/out/final.pdf''" by simp
  let ?x = "export_word_to_pdf demo_wm None demo_pf ready_state"
  let ?f = "create_final_pdf demo_wm None demo_pf (Some ''/out/final.pdf'') ready_state"
  have o2: "''/out/final.pdf'' = (if falsy (Some ''/out/final.pdf'')
              then default_output_path demo_wm demo_pf ready_state
              else the (Some ''/out/final.pdf''))" by simp
  have x: "fst ?x = Inr ''/tmp/word_appendix_x1/word_document.pdf''" by code_simp
  then have hx: "?x = (Inr ''/tmp/word_appendix_x1/word_document.pdf'', fst (snd ?x), snd (snd ?x))"
    by (metis prod.collapse)
  have f: "fst ?f = Inr ''/out/final.pdf''" by code_simp
  then have hf: "?f = (Inr ''/out/final.pdf'', fst (snd ?f), snd (snd ?f))"
    by (metis prod.collapse)
  have pr: "present (fs (fst (snd ?f)))
       = [''/out/final.pdf'', ''/tmp/word_appendix_x1'', ''/in/a.pdf'', ''/in/b.pdf'', ''/in/bad.pdf'']"
    by code_simp
  have tf: "temp_files (fst (snd ?f)) = [''/tmp/word_appendix_x1/word_document.pdf'']" by code_simp
  have lg: "snd (snd ?f)
       = [(DEBUG, ''Created temp directory: {}'', [ArgStr ''/tmp/word_appendix_x1'']),
          (INFO, ''Merged {} PDFs to {}'', [ArgInt 3, ArgStr ''/out/final.pdf'']),
          (INFO, ''Created final PDF: {}'', [ArgStr ''/out/final.pdf''])]" by code_simp
  note c7 = final_pdf_assembly [OF o2,
      THEN conjunct2, THEN conjunct2, THEN conjunct2, THEN conjunct2, THEN conjunct2, THEN conjunct2]
  from c7 [rule_format, OF conjI [OF hx hf]]
  have e: "\<not> path_exists ''/tmp/word_appendix_x1/word_document.pdf'' (fs (fst (snd ?f)))
           \<and> path_exists ''/out/final.pdf'' (fs (fst (snd ?f)))" by simp
  from o a m l r x f pr tf lg e show ?thesis by (intro conjI) simp_all
qed

end
